theory Spec2Isabelle
  imports Complex_Main
begin

section \<open>Link adaptation in multi-bss.cc\<close>

text \<open>
  A shallow embedding of the two classes of \<^verbatim>\<open>scratch/multi-bss.cc\<close> that decide the
  transmission parameters: \<^verbatim>\<open>TgaxResidentialPropagationLossModel\<close> and
  \<^verbatim>\<open>AutoMcsWifiManager\<close>.

  Conventions of the embedding.
  \<^item> A C++ \<^verbatim>\<open>double\<close> is a \<open>real\<close>: comparisons and divisions are the exact ones, so
    rounding, infinities and NaN are outside the model. Where the source can produce a
    NaN that is then converted to an integer, the model returns an error value.
  \<^item> \<^verbatim>\<open>uint8_t\<close>, \<^verbatim>\<open>uint16_t\<close> and \<^verbatim>\<open>uint64_t\<close> values are \<open>nat\<close>; a loop whose counter
    would wrap around before the loop condition fails is a branch of the model
    (\<open>LoopDoesNotTerminate\<close>).
  \<^item> An \<^verbatim>\<open>NS_ASSERT\<close> that fails, and a fatal error of the library, is an error value:
    every function that can abort returns \<open>error + result\<close>.
  \<^item> Member variables that a function writes are passed in and returned.
  \<^item> Functions of the ns-3 library that the file calls (the PHY, \<^verbatim>\<open>WifiMode\<close>,
    \<^verbatim>\<open>WifiTxVector::IsValid\<close>, the getters of \<^verbatim>\<open>WifiRemoteStationManager\<close>) are fields of
    the records \<open>Manager\<close> and \<open>WifiRemoteStationState\<close>: parameters of the model.
\<close>

subsection \<open>TgaxResidentialPropagationLossModel\<close>

record MobilityBuildingInfo =
  IsIndoor :: bool
  GetFloorNumber :: nat
  GetRoomNumberX :: nat
  GetRoomNumberY :: nat

text \<open>
  The part of \<^verbatim>\<open>DoCalcRxPower\<close> after the building checks: the path loss of the TGax
  residential model for a distance that is already at least one metre.
\<close>

definition PathlossDb :: "real \<Rightarrow> real \<Rightarrow> nat \<Rightarrow> nat \<Rightarrow> real" where
  "PathlossDb m_frequencyHz distance floors walls =
     (let breakpointDistance = 5;
          fc = 2400000000;
          p0 = 40.05 + 20 * log 10 (m_frequencyHz / fc)
                 + 20 * log 10 (min distance breakpointDistance);
          p1 = (if distance > breakpointDistance then p0 + 35 * log 10 (distance / 5) else p0);
          p2 = (if floors \<noteq> 0
                then p1 + 18.3 * (distance / real floors) powr
                       (((distance / real floors) + 2) / ((distance / real floors) + 1) - 0.46)
                else p1);
          p3 = (if walls \<noteq> 0 then p2 + 5 * real walls else p2)
      in p3)"

text \<open>
  \<^verbatim>\<open>DoCalcRxPower(txPowerDbm, a, b)\<close>. The distance \<^verbatim>\<open>a->GetDistanceFrom(b)\<close> and the two
  results of \<^verbatim>\<open>GetObject<MobilityBuildingInfo>()\<close> (a null pointer is \<open>None\<close>) are the
  arguments.
\<close>

definition DoCalcRxPower ::
  "real \<Rightarrow> real \<Rightarrow> real \<Rightarrow> MobilityBuildingInfo option \<Rightarrow> MobilityBuildingInfo option \<Rightarrow> real"
where
  "DoCalcRxPower m_frequencyHz txPowerDbm distance0 aInfo bInfo =
     (if distance0 = 0 then txPowerDbm
      else
        let distance = max 1 distance0 in
        case (aInfo, bInfo) of
          (Some a, Some b) \<Rightarrow>
            if \<not> IsIndoor a \<or> \<not> IsIndoor b then 0
            else
              let floors = nat \<bar>int (GetFloorNumber a) - int (GetFloorNumber b)\<bar>;
                  walls = nat \<bar>int (GetRoomNumberX a) - int (GetRoomNumberX b)\<bar>
                        + nat \<bar>int (GetRoomNumberY a) - int (GetRoomNumberY b)\<bar>
              in txPowerDbm - PathlossDb m_frequencyHz distance floors walls
        | _ \<Rightarrow> txPowerDbm - PathlossDb m_frequencyHz distance 0 0)"

subsection \<open>Modes, transmit vectors and errors\<close>

datatype WifiModulationClass =
    WIFI_MOD_CLASS_UNKNOWN
  | WIFI_MOD_CLASS_DSSS
  | WIFI_MOD_CLASS_HR_DSSS
  | WIFI_MOD_CLASS_ERP_OFDM
  | WIFI_MOD_CLASS_OFDM
  | WIFI_MOD_CLASS_HT
  | WIFI_MOD_CLASS_VHT
  | WIFI_MOD_CLASS_HE
  | WIFI_MOD_CLASS_EHT

text \<open>A \<^verbatim>\<open>WifiMode\<close>: its unique name, its modulation class and its MCS index.\<close>

datatype WifiMode =
  WifiMode (GetUniqueName: string) (GetModulationClass: WifiModulationClass) (GetMcsValue: nat)

text \<open>
  The fields of a \<^verbatim>\<open>WifiTxVector\<close> that the manager reads or writes. The remaining
  constructor arguments (power level, preamble, antennas, ness, aggregation) are copied
  from the configuration and no function of the file reads them back.
\<close>

record WifiTxVector =
  m_mode :: WifiMode
  m_guardInterval :: nat
  m_nss :: nat
  m_channelWidth :: nat

text \<open>The default-constructed \<^verbatim>\<open>WifiTxVector\<close> of ns-3: no mode, 800 ns, one stream, 20 MHz.\<close>

definition WifiTxVector_default :: WifiTxVector where
  "WifiTxVector_default =
     \<lparr>m_mode = WifiMode ''Invalid-WifiMode'' WIFI_MOD_CLASS_UNKNOWN 0,
      m_guardInterval = 800, m_nss = 1, m_channelWidth = 20\<rparr>"

datatype error =
    SnrThresholdNotFound      \<comment> \<open>\<^verbatim>\<open>NS_ASSERT_MSG\<close> of \<^verbatim>\<open>GetSnrThreshold\<close>\<close>
  | NonHtModeExpected         \<comment> \<open>\<^verbatim>\<open>NS_ASSERT\<close> of \<^verbatim>\<open>GetChannelWidthForNonHtMode\<close>\<close>
  | LoopDoesNotTerminate      \<comment> \<open>a loop counter wraps around below its bound\<close>
  | McsMeanUndefined          \<comment> \<open>0.0 / 0 is NaN, and a NaN has no conversion to \<^verbatim>\<open>int\<close>\<close>
  | WifiModeNotFound          \<comment> \<open>\<^verbatim>\<open>WifiMode(name)\<close> for a name that is not registered\<close>

text \<open>A loop body that may abort, run over a list: the first error ends the loop.\<close>

fun foldE :: "('a \<Rightarrow> 's \<Rightarrow> error + 's) \<Rightarrow> 'a list \<Rightarrow> 's \<Rightarrow> error + 's" where
  "foldE f [] s = Inr s"
| "foldE f (x # xs) s = (case f x s of Inl e \<Rightarrow> Inl e | Inr s' \<Rightarrow> foldE f xs s')"

subsection \<open>The station and the manager\<close>

text \<open>
  What the base class \<^verbatim>\<open>WifiRemoteStationManager\<close> knows about the peer: the results of
  the getters that take the station as argument.
\<close>

record WifiRemoteStationState =
  st_HtSupported :: bool
  st_VhtSupported :: bool
  st_HeSupported :: bool
  st_ShortGuardIntervalSupported :: bool
  st_GuardInterval :: nat
  st_ChannelWidth :: nat
  st_NumberOfSupportedStreams :: nat
  st_McsSupported :: "WifiMode list"
  st_Supported :: "WifiMode list"
  st_DefaultModeForSta :: WifiMode

record AutoMcsWifiRemoteStation =
  m_state :: WifiRemoteStationState
  m_lastSnrObserved :: real
  m_lastChannelWidthObserved :: nat
  m_lastNssObserved :: nat
  m_lastSnrCached :: real
  m_lastNss :: nat
  m_lastMode :: WifiMode
  m_lastChannelWidth :: nat

definition CACHE_INITIAL_VALUE :: real where
  "CACHE_INITIAL_VALUE = - 100"

type_synonym Thresholds = "(real \<times> WifiTxVector) list"

text \<open>
  The configuration of the manager and of its PHY (constant during a call), and the
  library functions on modes and vectors.
\<close>

record Manager =
  GetHtSupported :: bool
  GetVhtSupported :: bool
  GetHeSupported :: bool
  GetShortGuardIntervalSupported :: bool
  GetGuardInterval :: nat
  GetMaxNumberOfTransmitStreams :: nat
  GetDefaultMode :: WifiMode
  GetBasicModes :: "WifiMode list"
  m_ber :: real
  m_autoMCS :: bool
  phy_GetChannelWidth :: nat
  phy_GetModeList :: "WifiMode list"
  phy_GetMcsList :: "WifiMode list"
  phy_GetMaxSupportedTxSpatialStreams :: nat
  phy_CalculateSnr :: "WifiTxVector \<Rightarrow> real \<Rightarrow> real"
  phy_GetTxBandwidth :: "WifiMode \<Rightarrow> nat \<Rightarrow> nat"
  mode_GetDataRate :: "WifiMode \<Rightarrow> nat \<Rightarrow> nat \<Rightarrow> nat \<Rightarrow> nat"
  mode_IsAllowed :: "WifiMode \<Rightarrow> nat \<Rightarrow> nat \<Rightarrow> bool"
  txVector_IsValid :: "WifiTxVector \<Rightarrow> bool"
  WifiMode_named :: "string \<Rightarrow> WifiMode option"

text \<open>The member variables of the manager that its functions write.\<close>

record ManagerVars =
  m_thresholds :: Thresholds
  m_currentRate :: nat
  choosenMCS :: "int list"

definition Reset :: "Manager \<Rightarrow> AutoMcsWifiRemoteStation \<Rightarrow> AutoMcsWifiRemoteStation" where
  "Reset env st =
     st\<lparr>m_lastSnrObserved := 0,
        m_lastChannelWidthObserved := 0,
        m_lastNssObserved := 1,
        m_lastSnrCached := CACHE_INITIAL_VALUE,
        m_lastMode := GetDefaultMode env,
        m_lastChannelWidth := 0,
        m_lastNss := 1\<rparr>"

definition GetChannelWidthForNonHtMode :: "WifiMode \<Rightarrow> error + nat" where
  "GetChannelWidthForNonHtMode mode =
     (if \<not> (GetModulationClass mode \<noteq> WIFI_MOD_CLASS_HT \<and>
             GetModulationClass mode \<noteq> WIFI_MOD_CLASS_VHT \<and>
             GetModulationClass mode \<noteq> WIFI_MOD_CLASS_HE)
      then Inl NonHtModeExpected
      else if GetModulationClass mode = WIFI_MOD_CLASS_DSSS \<or>
              GetModulationClass mode = WIFI_MOD_CLASS_HR_DSSS
      then Inr 22
      else Inr 20)"

definition GetLastObservedSnr :: "AutoMcsWifiRemoteStation \<Rightarrow> nat \<Rightarrow> nat \<Rightarrow> real" where
  "GetLastObservedSnr station channelWidth nss =
     (let snr = m_lastSnrObserved station;
          snr = (if channelWidth \<noteq> m_lastChannelWidthObserved station
                 then snr / (real channelWidth / real (m_lastChannelWidthObserved station))
                 else snr);
          snr = (if nss \<noteq> m_lastNssObserved station
                 then snr / (real nss / real (m_lastNssObserved station))
                 else snr)
      in snr)"

subsection \<open>The table of SNR thresholds\<close>

definition AddSnrThreshold :: "WifiTxVector \<Rightarrow> real \<Rightarrow> Thresholds \<Rightarrow> Thresholds" where
  "AddSnrThreshold txVector snr thresholds = thresholds @ [(snr, txVector)]"

text \<open>
  The first loop of \<^verbatim>\<open>BuildSnrThresholds\<close>, over \<^verbatim>\<open>GetPhy()->GetModeList()\<close>. The loop
  state is the local \<^verbatim>\<open>txVector\<close> and the table.
\<close>

definition BuildModeStep ::
  "Manager \<Rightarrow> WifiMode \<Rightarrow> WifiTxVector \<times> Thresholds \<Rightarrow> error + WifiTxVector \<times> Thresholds"
where
  "BuildModeStep env mode s =
     (case GetChannelWidthForNonHtMode mode of
        Inl e \<Rightarrow> Inl e
      | Inr w \<Rightarrow>
          let txVector = (fst s)\<lparr>m_channelWidth := w\<rparr>;
              txVector = txVector\<lparr>m_nss := 1\<rparr>;
              txVector = txVector\<lparr>m_mode := mode\<rparr>
          in Inr (txVector,
                  AddSnrThreshold txVector (phy_CalculateSnr env txVector (m_ber env)) (snd s)))"

text \<open>
  \<^verbatim>\<open>for (uint16_t j = 20; j <= GetPhy()->GetChannelWidth(); j *= 2)\<close>: the counter takes
  the values 20, 40, ..., 20480, 40960 without wrapping; from 40960 on it wraps to
  16384, 32768 and then stays 0, so for a PHY width of 40960 or more the loop has no end.
\<close>

definition ChannelWidthLoop :: "nat \<Rightarrow> error + nat list" where
  "ChannelWidthLoop W =
     (if 40960 \<le> W then Inl LoopDoesNotTerminate
      else Inr (takeWhile (\<lambda>j. j \<le> W)
                  [20, 40, 80, 160, 320, 640, 1280, 2560, 5120, 10240, 20480]))"

text \<open>The body of the loop over \<^verbatim>\<open>k\<close> (VHT or HE): one spatial-stream count.\<close>

definition BuildNssStep ::
  "Manager \<Rightarrow> WifiMode \<Rightarrow> nat \<Rightarrow> nat \<Rightarrow> WifiTxVector \<times> Thresholds \<Rightarrow> WifiTxVector \<times> Thresholds"
where
  "BuildNssStep env mode j k s =
     (if mode_IsAllowed env mode j k
      then let txVector = (fst s)\<lparr>m_nss := k\<rparr>;
               txVector = txVector\<lparr>m_mode := mode\<rparr>
           in (txVector,
               AddSnrThreshold txVector (phy_CalculateSnr env txVector (m_ber env)) (snd s))
      else s)"

text \<open>The body of the loop over the widths \<^verbatim>\<open>j\<close>, for one MCS.\<close>

definition BuildWidthStep ::
  "Manager \<Rightarrow> WifiMode \<Rightarrow> nat \<Rightarrow> WifiTxVector \<times> Thresholds \<Rightarrow> error + WifiTxVector \<times> Thresholds"
where
  "BuildWidthStep env mode j s =
     (let txVector = (fst s)\<lparr>m_channelWidth := j\<rparr> in
      if GetModulationClass mode = WIFI_MOD_CLASS_HT
      then
        let guardInterval = (if GetShortGuardIntervalSupported env then 400 else 800);
            txVector = txVector\<lparr>m_guardInterval := guardInterval\<rparr>;
            nss = GetMcsValue mode div 8 + 1;
            txVector = txVector\<lparr>m_nss := nss\<rparr>;
            txVector = txVector\<lparr>m_mode := mode\<rparr>
        in Inr (txVector,
                AddSnrThreshold txVector (phy_CalculateSnr env txVector (m_ber env)) (snd s))
      else
        let guardInterval =
              (if GetModulationClass mode = WIFI_MOD_CLASS_VHT
               then (if GetShortGuardIntervalSupported env then 400 else 800)
               else GetGuardInterval env);
            txVector = txVector\<lparr>m_guardInterval := guardInterval\<rparr>;
            K = phy_GetMaxSupportedTxSpatialStreams env
        in if 255 \<le> K then Inl LoopDoesNotTerminate
           else Inr (fold (BuildNssStep env mode j) [1..<Suc K] (txVector, snd s)))"

definition BuildMcsStep ::
  "Manager \<Rightarrow> WifiMode \<Rightarrow> WifiTxVector \<times> Thresholds \<Rightarrow> error + WifiTxVector \<times> Thresholds"
where
  "BuildMcsStep env mode s =
     (case ChannelWidthLoop (phy_GetChannelWidth env) of
        Inl e \<Rightarrow> Inl e
      | Inr widths \<Rightarrow> foldE (BuildWidthStep env mode) widths s)"

text \<open>
  \<^verbatim>\<open>BuildSnrThresholds()\<close>: the table is cleared and filled again from the PHY. The result
  is the new value of \<^verbatim>\<open>m_thresholds\<close>.
\<close>

definition BuildSnrThresholds :: "Manager \<Rightarrow> error + Thresholds" where
  "BuildSnrThresholds env =
     (case foldE (BuildModeStep env) (phy_GetModeList env) (WifiTxVector_default, []) of
        Inl e \<Rightarrow> Inl e
      | Inr s \<Rightarrow>
          if GetHtSupported env
          then (case foldE (BuildMcsStep env) (phy_GetMcsList env) s of
                  Inl e \<Rightarrow> Inl e
                | Inr s' \<Rightarrow> Inr (snd s'))
          else Inr (snd s))"

text \<open>The predicate of the two \<^verbatim>\<open>std::find_if\<close> calls of \<^verbatim>\<open>GetSnrThreshold\<close>.\<close>

definition SameKey :: "WifiTxVector \<Rightarrow> real \<times> WifiTxVector \<Rightarrow> bool" where
  "SameKey txVector p =
     (m_mode txVector = m_mode (snd p) \<and>
      m_nss txVector = m_nss (snd p) \<and>
      m_channelWidth txVector = m_channelWidth (snd p))"

text \<open>
  \<^verbatim>\<open>GetSnrThreshold(txVector)\<close>: the threshold, and the table it leaves in
  \<^verbatim>\<open>m_thresholds\<close>.
\<close>

definition GetSnrThreshold ::
  "Manager \<Rightarrow> Thresholds \<Rightarrow> WifiTxVector \<Rightarrow> error + real \<times> Thresholds"
where
  "GetSnrThreshold env thresholds txVector =
     (case find (SameKey txVector) thresholds of
        Some it \<Rightarrow> Inr (fst it, thresholds)
      | None \<Rightarrow>
          (case BuildSnrThresholds env of
             Inl e \<Rightarrow> Inl e
           | Inr rebuilt \<Rightarrow>
               (case find (SameKey txVector) rebuilt of
                  None \<Rightarrow> Inl SnrThresholdNotFound
                | Some it \<Rightarrow> Inr (fst it, rebuilt))))"

subsection \<open>Reports\<close>

definition DoReportRtsOk ::
  "Manager \<Rightarrow> AutoMcsWifiRemoteStation \<Rightarrow> real \<Rightarrow> AutoMcsWifiRemoteStation"
where
  "DoReportRtsOk env station rtsSnr =
     station\<lparr>m_lastSnrObserved := rtsSnr,
             m_lastChannelWidthObserved :=
               (if phy_GetChannelWidth env \<ge> 40 then 20 else phy_GetChannelWidth env),
             m_lastNssObserved := 1\<rparr>"

text \<open>
  \<^verbatim>\<open>DoReportDataOk\<close>; \<^verbatim>\<open>ackSnr\<close> and \<^verbatim>\<open>ackMode\<close> are not read. \<^verbatim>\<open>GetMcsValue\<close> is the
  field of the mode.
\<close>

definition DoReportDataOk ::
  "Manager \<Rightarrow> AutoMcsWifiRemoteStation \<Rightarrow> ManagerVars \<Rightarrow> real \<Rightarrow> nat \<Rightarrow> nat
     \<Rightarrow> AutoMcsWifiRemoteStation \<times> ManagerVars"
where
  "DoReportDataOk env station vars dataSnr dataChannelWidth dataNss =
     (if dataSnr = 0 then (station, vars)
      else
        (station\<lparr>m_lastSnrObserved := dataSnr,
                 m_lastChannelWidthObserved := dataChannelWidth,
                 m_lastNssObserved := dataNss\<rparr>,
         if m_lastMode station \<noteq> GetDefaultMode env
         then vars\<lparr>choosenMCS := choosenMCS vars @ [int (GetMcsValue (m_lastMode station))]\<rparr>
         else vars))"

text \<open>\<^verbatim>\<open>DoReportAmpduTxStatus\<close>; \<^verbatim>\<open>nFailedMpdus\<close> and \<^verbatim>\<open>rxSnr\<close> are not read.\<close>

definition DoReportAmpduTxStatus ::
  "AutoMcsWifiRemoteStation \<Rightarrow> ManagerVars \<Rightarrow> nat \<Rightarrow> nat \<Rightarrow> real \<Rightarrow> real \<Rightarrow> nat \<Rightarrow> nat
     \<Rightarrow> AutoMcsWifiRemoteStation \<times> ManagerVars"
where
  "DoReportAmpduTxStatus station vars nSuccessfulMpdus nFailedMpdus rxSnr dataSnr
       dataChannelWidth dataNss =
     (if dataSnr = 0 then (station, vars)
      else
        (station\<lparr>m_lastSnrObserved := dataSnr,
                 m_lastChannelWidthObserved := dataChannelWidth,
                 m_lastNssObserved := dataNss\<rparr>,
         vars\<lparr>choosenMCS :=
                fold (\<lambda>i h. h @ [int (GetMcsValue (m_lastMode station))])
                  [0..<nSuccessfulMpdus] (choosenMCS vars)\<rparr>))"

definition DoReportFinalRtsFailed ::
  "Manager \<Rightarrow> AutoMcsWifiRemoteStation \<Rightarrow> AutoMcsWifiRemoteStation" where
  "DoReportFinalRtsFailed env station = Reset env station"

definition DoReportFinalDataFailed ::
  "Manager \<Rightarrow> AutoMcsWifiRemoteStation \<Rightarrow> AutoMcsWifiRemoteStation" where
  "DoReportFinalDataFailed env station = Reset env station"

subsection \<open>DoGetDataTxVector\<close>

text \<open>The local variables of the search that a loop iteration reads and writes.\<close>

record SearchState =
  s_txVector :: WifiTxVector
  s_bestRate :: nat
  s_maxMode :: WifiMode
  s_selectedNss :: nat
  s_thresholds :: Thresholds

text \<open>
  The test that the HT, VHT and HE branches apply to one (mode, NSS): the threshold of the
  current \<^verbatim>\<open>txVector\<close>, the data rate, the estimated SNR, and the comparison with the best
  rate so far.
\<close>

definition TestCandidate ::
  "Manager \<Rightarrow> AutoMcsWifiRemoteStation \<Rightarrow> nat \<Rightarrow> WifiMode \<Rightarrow> nat \<Rightarrow> SearchState
     \<Rightarrow> error + SearchState"
where
  "TestCandidate env station channelWidth mode nss s =
     (case GetSnrThreshold env (s_thresholds s) (s_txVector s) of
        Inl e \<Rightarrow> Inl e
      | Inr (threshold, thresholds) \<Rightarrow>
          let dataRate = mode_GetDataRate env mode (m_channelWidth (s_txVector s))
                           (m_guardInterval (s_txVector s)) nss;
              snr = GetLastObservedSnr station channelWidth nss;
              s = s\<lparr>s_thresholds := thresholds\<rparr>
          in if dataRate > s_bestRate s \<and> threshold < snr
             then Inr (s\<lparr>s_bestRate := dataRate, s_maxMode := mode, s_selectedNss := nss\<rparr>)
             else Inr s)"

text \<open>
  The loop over \<^verbatim>\<open>nss\<close> of the VHT and HE branches. The counter is a \<^verbatim>\<open>uint8_t\<close>: with a
  bound of 255 the loop condition never fails.
\<close>

definition NssStep ::
  "Manager \<Rightarrow> AutoMcsWifiRemoteStation \<Rightarrow> nat \<Rightarrow> WifiMode \<Rightarrow> nat \<Rightarrow> SearchState
     \<Rightarrow> error + SearchState"
where
  "NssStep env station channelWidth mode nss s =
     (let s = s\<lparr>s_txVector := (s_txVector s)\<lparr>m_nss := nss\<rparr>\<rparr> in
      if \<not> txVector_IsValid env (s_txVector s) then Inr s
      else TestCandidate env station channelWidth mode nss s)"

definition NssLoop ::
  "Manager \<Rightarrow> AutoMcsWifiRemoteStation \<Rightarrow> nat \<Rightarrow> WifiMode \<Rightarrow> SearchState \<Rightarrow> error + SearchState"
where
  "NssLoop env station channelWidth mode s =
     (let n = min (GetMaxNumberOfTransmitStreams env)
                  (st_NumberOfSupportedStreams (m_state station)) in
      case foldE (NssStep env station channelWidth mode) [1..<Suc n] s of
        Inl e \<Rightarrow> Inl e
      | Inr s' \<Rightarrow> if 255 \<le> n then Inl LoopDoesNotTerminate else Inr s')"

definition ShortGuardInterval :: "Manager \<Rightarrow> AutoMcsWifiRemoteStation \<Rightarrow> nat" where
  "ShortGuardInterval env station =
     max (if st_ShortGuardIntervalSupported (m_state station) then 400 else 800)
         (if GetShortGuardIntervalSupported env then 400 else 800)"

definition HeGuardInterval :: "Manager \<Rightarrow> AutoMcsWifiRemoteStation \<Rightarrow> nat" where
  "HeGuardInterval env station = max (st_GuardInterval (m_state station)) (GetGuardInterval env)"

text \<open>One iteration of the loop over \<^verbatim>\<open>GetMcsSupported(station, i)\<close>.\<close>

definition McsStep ::
  "Manager \<Rightarrow> AutoMcsWifiRemoteStation \<Rightarrow> nat \<Rightarrow> WifiMode \<Rightarrow> SearchState \<Rightarrow> error + SearchState"
where
  "McsStep env station channelWidth mode s =
     (let s = s\<lparr>s_txVector := (s_txVector s)\<lparr>m_mode := mode\<rparr>\<rparr> in
      if GetModulationClass mode = WIFI_MOD_CLASS_HT
      then
        let s = s\<lparr>s_txVector := (s_txVector s)\<lparr>m_guardInterval := ShortGuardInterval env station\<rparr>\<rparr>
        in if GetVhtSupported env \<and> st_VhtSupported (m_state station) then Inr s
           else if GetHeSupported env \<and> st_HeSupported (m_state station) then Inr s
           else
             let nss = GetMcsValue mode div 8 + 1;
                 s = s\<lparr>s_txVector := (s_txVector s)\<lparr>m_nss := nss\<rparr>\<rparr>
             in if \<not> txVector_IsValid env (s_txVector s) \<or>
                   nss > min (GetMaxNumberOfTransmitStreams env)
                             (st_NumberOfSupportedStreams (m_state station))
                then Inr s
                else TestCandidate env station channelWidth mode nss s
      else if GetModulationClass mode = WIFI_MOD_CLASS_VHT
      then
        let s = s\<lparr>s_txVector := (s_txVector s)\<lparr>m_guardInterval := ShortGuardInterval env station\<rparr>\<rparr>
        in if GetHeSupported env \<and> st_HeSupported (m_state station) then Inr s
           else if \<not> GetVhtSupported env \<or> \<not> st_VhtSupported (m_state station) then Inr s
           else NssLoop env station channelWidth mode s
      else
        let s = s\<lparr>s_txVector := (s_txVector s)\<lparr>m_guardInterval := HeGuardInterval env station\<rparr>\<rparr>
        in if \<not> GetHeSupported env \<or> \<not> st_HeSupported (m_state station) then Inr s
           else NssLoop env station channelWidth mode s)"

text \<open>One iteration of the loop over \<^verbatim>\<open>GetSupported(station, i)\<close> (non-HT selection).\<close>

definition NonHtStep ::
  "Manager \<Rightarrow> AutoMcsWifiRemoteStation \<Rightarrow> WifiMode \<Rightarrow> SearchState \<Rightarrow> error + SearchState"
where
  "NonHtStep env station mode s =
     (let s = s\<lparr>s_txVector := (s_txVector s)\<lparr>m_mode := mode\<rparr>\<rparr>;
          s = s\<lparr>s_txVector := (s_txVector s)\<lparr>m_nss := s_selectedNss s\<rparr>\<rparr>
      in case GetChannelWidthForNonHtMode mode of
           Inl e \<Rightarrow> Inl e
         | Inr width \<Rightarrow>
             let s = s\<lparr>s_txVector := (s_txVector s)\<lparr>m_channelWidth := width\<rparr>\<rparr> in
             (case GetSnrThreshold env (s_thresholds s) (s_txVector s) of
                Inl e \<Rightarrow> Inl e
              | Inr (threshold, thresholds) \<Rightarrow>
                  let dataRate = mode_GetDataRate env mode (m_channelWidth (s_txVector s))
                                   (m_guardInterval (s_txVector s)) (m_nss (s_txVector s));
                      snr = GetLastObservedSnr station width 1;
                      s = s\<lparr>s_thresholds := thresholds\<rparr>
                  in if dataRate > s_bestRate s \<and> threshold < snr
                     then Inr (s\<lparr>s_bestRate := dataRate, s_maxMode := mode\<rparr>)
                     else Inr s))"

text \<open>The condition under which the warm-up branch reuses the cached decision.\<close>

definition CacheHit :: "AutoMcsWifiRemoteStation \<Rightarrow> nat \<Rightarrow> bool" where
  "CacheHit station channelWidth =
     (m_lastSnrCached station \<noteq> CACHE_INITIAL_VALUE \<and>
      m_lastSnrObserved station = m_lastSnrCached station \<and>
      channelWidth = m_lastChannelWidth station)"

text \<open>
  The search of the warm-up branch (the \<^verbatim>\<open>else\<close> of the cache test), from the local
  variables as they are before it to their values after it.
\<close>

definition Search ::
  "Manager \<Rightarrow> AutoMcsWifiRemoteStation \<Rightarrow> nat \<Rightarrow> SearchState \<Rightarrow> error + SearchState"
where
  "Search env station channelWidth s =
     (if GetHtSupported env \<and> st_HtSupported (m_state station)
      then foldE (McsStep env station channelWidth) (st_McsSupported (m_state station)) s
      else foldE (NonHtStep env station) (st_Supported (m_state station))
             (s\<lparr>s_selectedNss := 1\<rparr>))"

text \<open>\<^verbatim>\<open>std::to_string\<close> of an \<^verbatim>\<open>int\<close>.\<close>

fun digits :: "nat \<Rightarrow> string" where
  "digits n = (if n < 10 then [''0123456789'' ! n]
               else digits (n div 10) @ [''0123456789'' ! (n mod 10)])"

declare digits.simps [simp del]

definition to_string :: "int \<Rightarrow> string" where
  "to_string i = (if i < 0 then CHR ''-'' # digits (nat (- i)) else digits (nat i))"

text \<open>
  The branch for ten seconds and later: the mean of \<^verbatim>\<open>choosenMCS\<close>, rounded up, names the
  mode. With an empty vector the quotient is 0.0 / 0.
\<close>

definition ConvergedMcs :: "int list \<Rightarrow> error + int" where
  "ConvergedMcs history =
     (let average = fold (\<lambda>it average. average + real_of_int it) history 0 in
      if length history = 0 then Inl McsMeanUndefined
      else Inr \<lceil>average / real (length history)\<rceil>)"

definition ConvergedMode :: "Manager \<Rightarrow> int list \<Rightarrow> error + WifiMode" where
  "ConvergedMode env history =
     (case ConvergedMcs history of
        Inl e \<Rightarrow> Inl e
      | Inr average \<Rightarrow>
          (case WifiMode_named env (''HeMcs'' @ to_string average) of
             None \<Rightarrow> Inl WifiModeNotFound
           | Some maxMode \<Rightarrow> Inr maxMode))"

text \<open>
  The first part of \<^verbatim>\<open>DoGetDataTxVector\<close>, up to the end of the \<^verbatim>\<open>if\<close> on the simulation
  time: the selected mode and NSS, the station and the manager variables. \<open>now\<close> is
  \<^verbatim>\<open>Simulator::Now().GetSeconds()\<close>.
\<close>

definition SelectMode ::
  "Manager \<Rightarrow> AutoMcsWifiRemoteStation \<Rightarrow> ManagerVars \<Rightarrow> real \<Rightarrow> nat
     \<Rightarrow> error + WifiMode \<times> nat \<times> AutoMcsWifiRemoteStation \<times> ManagerVars"
where
  "SelectMode env station vars now channelWidth =
     (let maxMode = st_DefaultModeForSta (m_state station);
          selectedNss = 1;
          txVector = WifiTxVector_default\<lparr>m_channelWidth := channelWidth\<rparr>
      in if now < 10
         then
           if CacheHit station channelWidth
           then Inr (m_lastMode station, m_lastNss station, station, vars)
           else
             (case Search env station channelWidth
                     \<lparr>s_txVector = txVector, s_bestRate = 0, s_maxMode = maxMode,
                      s_selectedNss = selectedNss, s_thresholds = m_thresholds vars\<rparr> of
                Inl e \<Rightarrow> Inl e
              | Inr s \<Rightarrow>
                  Inr (s_maxMode s, s_selectedNss s,
                       station\<lparr>m_lastSnrCached := m_lastSnrObserved station,
                               m_lastMode := s_maxMode s,
                               m_lastNss := s_selectedNss s\<rparr>,
                       vars\<lparr>m_thresholds := s_thresholds s\<rparr>))
         else
           (case ConvergedMode env (choosenMCS vars) of
              Inl e \<Rightarrow> Inl e
            | Inr mode \<Rightarrow> Inr (mode, selectedNss, station, vars)))"

text \<open>
  \<^verbatim>\<open>DoGetDataTxVector(st, allowedWidth)\<close>: the returned vector, the station and the manager
  variables after the call.
\<close>

definition DoGetDataTxVector ::
  "Manager \<Rightarrow> AutoMcsWifiRemoteStation \<Rightarrow> ManagerVars \<Rightarrow> real \<Rightarrow> nat
     \<Rightarrow> error + WifiTxVector \<times> AutoMcsWifiRemoteStation \<times> ManagerVars"
where
  "DoGetDataTxVector env station vars now allowedWidth =
     (let channelWidth = min (st_ChannelWidth (m_state station)) allowedWidth in
      case SelectMode env station vars now channelWidth of
        Inl e \<Rightarrow> Inl e
      | Inr (maxMode, selectedNss, station, vars) \<Rightarrow>
          let station = station\<lparr>m_lastChannelWidth := channelWidth\<rparr>;
              guardInterval =
                (if GetModulationClass maxMode = WIFI_MOD_CLASS_HE
                 then HeGuardInterval env station
                 else if GetModulationClass maxMode = WIFI_MOD_CLASS_HT \<or>
                         GetModulationClass maxMode = WIFI_MOD_CLASS_VHT
                 then ShortGuardInterval env station
                 else 800);
              bestTxVector =
                \<lparr>m_mode = maxMode, m_guardInterval = guardInterval, m_nss = selectedNss,
                 m_channelWidth = phy_GetTxBandwidth env maxMode channelWidth\<rparr>;
              maxDataRate = mode_GetDataRate env maxMode (m_channelWidth bestTxVector)
                              (m_guardInterval bestTxVector) (m_nss bestTxVector);
              vars = (if m_currentRate vars \<noteq> maxDataRate
                      then vars\<lparr>m_currentRate := maxDataRate\<rparr> else vars)
          in Inr (bestTxVector, station, vars))"

subsection \<open>DoGetRtsTxVector\<close>




subsection \<open>Reading the table\<close>

text \<open>
  The threshold that a \<^verbatim>\<open>find_if\<close> of \<^verbatim>\<open>GetSnrThreshold\<close> reads in a table: the first
  entry with the mode, the NSS and the width of the vector.
\<close>

definition Threshold :: "Thresholds \<Rightarrow> WifiTxVector \<Rightarrow> real option" where
  "Threshold table txVector = map_option fst (find (SameKey txVector) table)"

text \<open>
  A table is consistent with the rebuilt one when every entry it finds is the entry that the
  rebuilt table finds for the same key. The empty table and the rebuilt table itself are
  consistent; a table built for other PHY capabilities need not be.
\<close>

definition Consistent :: "Thresholds \<Rightarrow> Thresholds \<Rightarrow> bool" where
  "Consistent table rebuilt =
     list_all (\<lambda>p. Threshold table (snd p) = Threshold rebuilt (snd p)) table"

text \<open>
  The two results of \<^verbatim>\<open>GetChannelWidthForNonHtMode\<close> when its assertion holds, and the
  bound of the loops over \<^verbatim>\<open>nss\<close>.
\<close>

definition NonHtWidth :: "WifiMode \<Rightarrow> nat" where
  "NonHtWidth mode =
     (if GetModulationClass mode = WIFI_MOD_CLASS_DSSS \<or>
         GetModulationClass mode = WIFI_MOD_CLASS_HR_DSSS then 22 else 20)"

definition StreamLimit :: "Manager \<Rightarrow> AutoMcsWifiRemoteStation \<Rightarrow> nat" where
  "StreamLimit env station =
     min (GetMaxNumberOfTransmitStreams env) (st_NumberOfSupportedStreams (m_state station))"

subsection \<open>The selections in the words of the specification\<close>

text \<open>
  The specification words the warm-up search as a choice in a list: the supported
  combinations in one fixed order, of which the candidates are those whose threshold is
  strictly below the estimated SNR, and the result is the first candidate with the highest
  data rate. The definitions \<open>spec_...\<close> follow these words; the theorems below compare them
  with the loops of the source.

  A combination is a transmit vector: its mode, guard interval, NSS and width.
\<close>

definition FirstBest :: "('a \<Rightarrow> 'b::linorder) \<Rightarrow> 'a list \<Rightarrow> 'a option" where
  "FirstBest score cs = find (\<lambda>c. \<forall>d\<in>set cs. score d \<le> score c) cs"

definition spec_McsCombinations ::
  "Manager \<Rightarrow> AutoMcsWifiRemoteStation \<Rightarrow> nat \<Rightarrow> WifiMode \<Rightarrow> WifiTxVector list" where
  "spec_McsCombinations env station channelWidth mode =
     (let bothVht = (GetVhtSupported env \<and> st_VhtSupported (m_state station));
          bothHe = (GetHeSupported env \<and> st_HeSupported (m_state station));
          n = StreamLimit env station
      in if GetModulationClass mode = WIFI_MOD_CLASS_HT
         then (if bothVht \<or> bothHe then []
               else filter (\<lambda>c. txVector_IsValid env c \<and> m_nss c \<le> n)
                      [\<lparr>m_mode = mode, m_guardInterval = ShortGuardInterval env station,
                        m_nss = GetMcsValue mode div 8 + 1, m_channelWidth = channelWidth\<rparr>])
         else if GetModulationClass mode = WIFI_MOD_CLASS_VHT
         then (if bothVht \<and> \<not> bothHe
               then filter (txVector_IsValid env)
                      (map (\<lambda>nss. \<lparr>m_mode = mode, m_guardInterval = ShortGuardInterval env station,
                                    m_nss = nss, m_channelWidth = channelWidth\<rparr>) [1..<Suc n])
               else [])
         else (if bothHe
               then filter (txVector_IsValid env)
                      (map (\<lambda>nss. \<lparr>m_mode = mode, m_guardInterval = HeGuardInterval env station,
                                    m_nss = nss, m_channelWidth = channelWidth\<rparr>) [1..<Suc n])
               else []))"

definition spec_Combinations ::
  "Manager \<Rightarrow> AutoMcsWifiRemoteStation \<Rightarrow> nat \<Rightarrow> WifiTxVector list" where
  "spec_Combinations env station channelWidth =
     (if GetHtSupported env \<and> st_HtSupported (m_state station)
      then concat (map (spec_McsCombinations env station channelWidth)
                     (st_McsSupported (m_state station)))
      else map (\<lambda>mode. \<lparr>m_mode = mode, m_guardInterval = 800, m_nss = 1,
                        m_channelWidth = NonHtWidth mode\<rparr>)
             (st_Supported (m_state station)))"

definition spec_Qualifies :: "Thresholds \<Rightarrow> AutoMcsWifiRemoteStation \<Rightarrow> WifiTxVector \<Rightarrow> bool" where
  "spec_Qualifies table station c =
     (case Threshold table c of
        None \<Rightarrow> False
      | Some threshold \<Rightarrow> threshold < GetLastObservedSnr station (m_channelWidth c) (m_nss c))"

definition spec_DataRate :: "Manager \<Rightarrow> WifiTxVector \<Rightarrow> nat" where
  "spec_DataRate env c =
     mode_GetDataRate env (m_mode c) (m_channelWidth c) (m_guardInterval c) (m_nss c)"

definition spec_Candidates ::
  "Manager \<Rightarrow> Thresholds \<Rightarrow> AutoMcsWifiRemoteStation \<Rightarrow> nat \<Rightarrow> WifiTxVector list" where
  "spec_Candidates env table station channelWidth =
     filter (spec_Qualifies table station) (spec_Combinations env station channelWidth)"

text \<open>
  The control-rate search: the vector that \<^verbatim>\<open>DoGetRtsTxVector\<close> looks up for a basic mode,
  its threshold, and whether the threshold is strictly below the last observed SNR.
\<close>

definition RtsVector :: "WifiMode \<Rightarrow> WifiTxVector" where
  "RtsVector mode = \<lparr>m_mode = mode, m_guardInterval = 800, m_nss = 1, m_channelWidth = NonHtWidth mode\<rparr>"

definition spec_RtsThreshold :: "Thresholds \<Rightarrow> WifiMode \<Rightarrow> real" where
  "spec_RtsThreshold table mode = (case Threshold table (RtsVector mode) of None \<Rightarrow> 0 | Some t \<Rightarrow> t)"

definition spec_RtsQualifies :: "Thresholds \<Rightarrow> AutoMcsWifiRemoteStation \<Rightarrow> WifiMode \<Rightarrow> bool" where
  "spec_RtsQualifies table station mode =
     (case Threshold table (RtsVector mode) of None \<Rightarrow> False
      | Some t \<Rightarrow> t < m_lastSnrObserved station)"

text \<open>
  The conditions under which the two searches meet no failing assertion and no loop without
  end: every combination that is looked up has a threshold in the table, the modes that go
  through \<^verbatim>\<open>GetChannelWidthForNonHtMode\<close> are non-HT modes, and the bound of the loops
  over \<^verbatim>\<open>nss\<close> is below 255.
\<close>

definition IsNonHtMode :: "WifiMode \<Rightarrow> bool" where
  "IsNonHtMode mode =
     (GetModulationClass mode \<noteq> WIFI_MOD_CLASS_HT \<and>
      GetModulationClass mode \<noteq> WIFI_MOD_CLASS_VHT \<and>
      GetModulationClass mode \<noteq> WIFI_MOD_CLASS_HE)"

definition spec_SearchDefined ::
  "Manager \<Rightarrow> Thresholds \<Rightarrow> AutoMcsWifiRemoteStation \<Rightarrow> nat \<Rightarrow> bool" where
  "spec_SearchDefined env table station channelWidth =
     ((\<forall>c\<in>set (spec_Combinations env station channelWidth). Threshold table c \<noteq> None) \<and>
      (if GetHtSupported env \<and> st_HtSupported (m_state station)
       then StreamLimit env station < 255
       else \<forall>mode\<in>set (st_Supported (m_state station)). IsNonHtMode mode))"


text \<open>The mean of the history, rounded up.\<close>

definition spec_MeanCeil :: "int list \<Rightarrow> int" where
  "spec_MeanCeil history = \<lceil>real_of_int (sum_list history) / real (length history)\<rceil>"

text \<open>
  One step of a search for a maximum that keeps the first of equal scores, and the
  variables of the two searches that such a step updates.
\<close>

definition Pick :: "('a \<Rightarrow> 'b::linorder) \<Rightarrow> ('a \<Rightarrow> bool) \<Rightarrow> ('a \<Rightarrow> 'c) \<Rightarrow> 'a \<Rightarrow> 'b \<times> 'c \<Rightarrow> 'b \<times> 'c" where
  "Pick score ok out c acc = (if score c > fst acc \<and> ok c then (score c, out c) else acc)"

definition SearchAcc :: "SearchState \<Rightarrow> nat \<times> WifiMode \<times> nat" where
  "SearchAcc s = (s_bestRate s, s_maxMode s, s_selectedNss s)"

definition ModeNss :: "WifiTxVector \<Rightarrow> WifiMode \<times> nat" where
  "ModeNss c = (m_mode c, m_nss c)"


abbreviation (input) "PickData env B station \<equiv> Pick (spec_DataRate env) (spec_Qualifies B station) ModeNss"

abbreviation (input) "PickRts B station \<equiv> Pick (spec_RtsThreshold B) (spec_RtsQualifies B station) (\<lambda>mode. mode)"

subsection \<open>An example configuration\<close>

text \<open>
  A manager and a peer that both support HE with two spatial streams on 20 MHz, four
  non-HT modes and three HE modes. The thresholds and data rates are small numbers chosen
  so that the selections can be followed by hand.
\<close>

definition OfdmRate6Mbps :: WifiMode where
  "OfdmRate6Mbps = WifiMode ''OfdmRate6Mbps'' WIFI_MOD_CLASS_OFDM 0"

definition OfdmRate12Mbps :: WifiMode where
  "OfdmRate12Mbps = WifiMode ''OfdmRate12Mbps'' WIFI_MOD_CLASS_OFDM 0"

definition OfdmRate24Mbps :: WifiMode where
  "OfdmRate24Mbps = WifiMode ''OfdmRate24Mbps'' WIFI_MOD_CLASS_OFDM 0"

definition DsssRate11Mbps :: WifiMode where
  "DsssRate11Mbps = WifiMode ''DsssRate11Mbps'' WIFI_MOD_CLASS_HR_DSSS 0"

definition HeMcs0 :: WifiMode where
  "HeMcs0 = WifiMode ''HeMcs0'' WIFI_MOD_CLASS_HE 0"

definition HeMcs7 :: WifiMode where
  "HeMcs7 = WifiMode ''HeMcs7'' WIFI_MOD_CLASS_HE 7"

definition HeMcs11 :: WifiMode where
  "HeMcs11 = WifiMode ''HeMcs11'' WIFI_MOD_CLASS_HE 11"

definition ex_NonHtNumber :: "WifiMode \<Rightarrow> nat" where
  "ex_NonHtNumber mode =
     (if mode = OfdmRate6Mbps then 6 else if mode = DsssRate11Mbps then 11
      else if mode = OfdmRate12Mbps then 12 else 24)"

definition ex_CalculateSnr :: "WifiTxVector \<Rightarrow> real \<Rightarrow> real" where
  "ex_CalculateSnr txVector ber =
     (if GetModulationClass (m_mode txVector) = WIFI_MOD_CLASS_HE
      then 3 * real (GetMcsValue (m_mode txVector) + 1) * real (m_nss txVector)
      else if m_mode txVector = OfdmRate6Mbps then 2
      else if m_mode txVector = DsssRate11Mbps then 8
      else if m_mode txVector = OfdmRate12Mbps then 4
      else 16)"

definition ex_GetDataRate :: "WifiMode \<Rightarrow> nat \<Rightarrow> nat \<Rightarrow> nat \<Rightarrow> nat" where
  "ex_GetDataRate mode width guardInterval nss =
     (if GetModulationClass mode = WIFI_MOD_CLASS_HE
      then (GetMcsValue mode + 1) * nss * width
      else ex_NonHtNumber mode)"

definition ex_env :: Manager where
  "ex_env =
     \<lparr>GetHtSupported = True, GetVhtSupported = True, GetHeSupported = True,
      GetShortGuardIntervalSupported = False, GetGuardInterval = 800,
      GetMaxNumberOfTransmitStreams = 2,
      GetDefaultMode = OfdmRate6Mbps,
      GetBasicModes = [OfdmRate6Mbps, DsssRate11Mbps, OfdmRate12Mbps, OfdmRate24Mbps],
      m_ber = 1 / 10000000, m_autoMCS = False,
      phy_GetChannelWidth = 20,
      phy_GetModeList = [OfdmRate6Mbps, DsssRate11Mbps, OfdmRate12Mbps, OfdmRate24Mbps],
      phy_GetMcsList = [HeMcs0, HeMcs7, HeMcs11],
      phy_GetMaxSupportedTxSpatialStreams = 2,
      phy_CalculateSnr = ex_CalculateSnr,
      phy_GetTxBandwidth = (\<lambda>mode width. width),
      mode_GetDataRate = ex_GetDataRate,
      mode_IsAllowed = (\<lambda>mode width nss. True),
      txVector_IsValid = (\<lambda>txVector. True),
      WifiMode_named =
        map_of [(''OfdmRate6Mbps'', OfdmRate6Mbps), (''HeMcs0'', HeMcs0),
                (''HeMcs7'', HeMcs7), (''HeMcs11'', HeMcs11)]\<rparr>"

definition ex_state :: WifiRemoteStationState where
  "ex_state =
     \<lparr>st_HtSupported = True, st_VhtSupported = True, st_HeSupported = True,
      st_ShortGuardIntervalSupported = False, st_GuardInterval = 800,
      st_ChannelWidth = 20, st_NumberOfSupportedStreams = 2,
      st_McsSupported = [HeMcs0, HeMcs7, HeMcs11],
      st_Supported = [OfdmRate6Mbps, OfdmRate12Mbps, OfdmRate24Mbps],
      st_DefaultModeForSta = OfdmRate6Mbps\<rparr>"

definition ex_station :: "real \<Rightarrow> AutoMcsWifiRemoteStation" where
  "ex_station snr =
     \<lparr>m_state = ex_state, m_lastSnrObserved = snr, m_lastChannelWidthObserved = 20,
      m_lastNssObserved = 1, m_lastSnrCached = CACHE_INITIAL_VALUE, m_lastNss = 1,
      m_lastMode = OfdmRate6Mbps, m_lastChannelWidth = 0\<rparr>"

definition ex_table :: Thresholds where
  "ex_table =
     [(2, \<lparr>m_mode = OfdmRate6Mbps, m_guardInterval = 800, m_nss = 1, m_channelWidth = 20\<rparr>),
      (8, \<lparr>m_mode = DsssRate11Mbps, m_guardInterval = 800, m_nss = 1, m_channelWidth = 22\<rparr>),
      (4, \<lparr>m_mode = OfdmRate12Mbps, m_guardInterval = 800, m_nss = 1, m_channelWidth = 20\<rparr>),
      (16, \<lparr>m_mode = OfdmRate24Mbps, m_guardInterval = 800, m_nss = 1, m_channelWidth = 20\<rparr>),
      (3, \<lparr>m_mode = HeMcs0, m_guardInterval = 800, m_nss = 1, m_channelWidth = 20\<rparr>),
      (6, \<lparr>m_mode = HeMcs0, m_guardInterval = 800, m_nss = 2, m_channelWidth = 20\<rparr>),
      (24, \<lparr>m_mode = HeMcs7, m_guardInterval = 800, m_nss = 1, m_channelWidth = 20\<rparr>),
      (48, \<lparr>m_mode = HeMcs7, m_guardInterval = 800, m_nss = 2, m_channelWidth = 20\<rparr>),
      (36, \<lparr>m_mode = HeMcs11, m_guardInterval = 800, m_nss = 1, m_channelWidth = 20\<rparr>),
      (72, \<lparr>m_mode = HeMcs11, m_guardInterval = 800, m_nss = 2, m_channelWidth = 20\<rparr>)]"

definition ex_vars :: "Thresholds \<Rightarrow> int list \<Rightarrow> ManagerVars" where
  "ex_vars table history = \<lparr>m_thresholds = table, m_currentRate = 0, choosenMCS = history\<rparr>"

definition ex_indoor :: MobilityBuildingInfo where
  "ex_indoor = \<lparr>IsIndoor = True, GetFloorNumber = 0, GetRoomNumberX = 0, GetRoomNumberY = 0\<rparr>"

definition ex_outdoor :: MobilityBuildingInfo where
  "ex_outdoor = \<lparr>IsIndoor = False, GetFloorNumber = 0, GetRoomNumberX = 0, GetRoomNumberY = 0\<rparr>"

section \<open>Properties\<close>

subsection \<open>Auxiliary facts\<close>

subsubsection \<open>The first maximum of a list\<close>

lemma find_SomeD: "find P xs = Some x \<Longrightarrow> x \<in> set xs \<and> P x"
  by (induction xs) (auto split: if_splits)

lemma Pick_take: "score c > fst acc \<Longrightarrow> ok c \<Longrightarrow> Pick score ok out c acc = (score c, out c)"
  by (simp add: Pick_def)

lemma Pick_skip: "\<not> (score c > fst acc \<and> ok c) \<Longrightarrow> Pick score ok out c acc = acc"
  by (auto simp add: Pick_def)

lemma find_first: "\<forall>x\<in>set xs. \<not> P x \<Longrightarrow> P y \<Longrightarrow> find P (xs @ y # ys) = Some y"
  by (induction xs) auto

lemma SameKey_cong: "SameKey v p \<Longrightarrow> SameKey (snd p) = SameKey v"
  by (auto simp: SameKey_def fun_eq_iff)

lemma Threshold_key:
  "m_mode v = m_mode v' \<Longrightarrow> m_nss v = m_nss v' \<Longrightarrow> m_channelWidth v = m_channelWidth v' \<Longrightarrow>
   Threshold T v = Threshold T v'"
proof -
  assume "m_mode v = m_mode v'" "m_nss v = m_nss v'" "m_channelWidth v = m_channelWidth v'"
  then have "SameKey v = SameKey v'" by (auto simp: SameKey_def fun_eq_iff)
  then show ?thesis by (simp add: Threshold_def)
qed

lemma Consistent_refl: "Consistent B B"
  by (simp add: Consistent_def list_all_iff)

lemma Consistent_Threshold:
  assumes "Consistent T B" "find (SameKey v) T = Some p"
  shows "Threshold B v = Some (fst p)"
proof -
  from assms(2) have mem: "p \<in> set T" and key: "SameKey v p"
    using find_SomeD by fastforce+
  have eq: "SameKey (snd p) = SameKey v" using key by (rule SameKey_cong)
  from assms(1) mem have "Threshold T (snd p) = Threshold B (snd p)"
    by (simp add: Consistent_def list_all_iff)
  then show ?thesis using assms(2) by (simp add: Threshold_def eq)
qed

lemma GetSnrThreshold_Consistent:
  assumes "BuildSnrThresholds env = Inr B" "Consistent T B"
    "GetSnrThreshold env T v = Inr (t, T')"
  shows "Threshold B v = Some t \<and> Consistent T' B"
proof (cases "find (SameKey v) T")
  case None
  with assms show ?thesis
    by (auto simp: GetSnrThreshold_def Threshold_def Consistent_refl split: option.splits)
next
  case (Some p)
  with assms(3) have "t = fst p" "T' = T" by (auto simp: GetSnrThreshold_def)
  with Consistent_Threshold [OF assms(2) Some] assms(2) show ?thesis by simp
qed

lemma fold_Pick:
  "fold (Pick score ok out) cs (r, x) = (r', x') \<Longrightarrow>
     r \<le> r' \<and> (\<forall>c\<in>set cs. ok c \<longrightarrow> score c \<le> r') \<and>
     ((r', x') = (r, x) \<or>
      (\<exists>pre c post. cs = pre @ c # post \<and> ok c \<and> score c = r' \<and> out c = x' \<and> r < r' \<and>
          (\<forall>d\<in>set pre. ok d \<longrightarrow> score d < r')))"
proof (induction cs arbitrary: r x)
  case Nil
  then show ?case by simp
next
  case (Cons a cs)
  show ?case
  proof (cases "score a > r \<and> ok a")
    case True
    with Cons.prems have f: "fold (Pick score ok out) cs (score a, out a) = (r', x')"
      by (simp add: Pick_take)
    from Cons.IH [OF f] have le: "score a \<le> r'" and all: "\<forall>c\<in>set cs. ok c \<longrightarrow> score c \<le> r'"
      and dis: "(r', x') = (score a, out a) \<or>
        (\<exists>pre c post. cs = pre @ c # post \<and> ok c \<and> score c = r' \<and> out c = x' \<and> score a < r' \<and>
          (\<forall>d\<in>set pre. ok d \<longrightarrow> score d < r'))" by auto
    from dis have "\<exists>pre c post. a # cs = pre @ c # post \<and> ok c \<and> score c = r' \<and> out c = x' \<and> r < r' \<and>
          (\<forall>d\<in>set pre. ok d \<longrightarrow> score d < r')"
    proof
      assume "(r', x') = (score a, out a)"
      with True have "a # cs = [] @ a # cs \<and> ok a \<and> score a = r' \<and> out a = x' \<and> r < r' \<and>
          (\<forall>d\<in>set []. ok d \<longrightarrow> score d < r')" by simp
      then show ?thesis by blast
    next
      assume "\<exists>pre c post. cs = pre @ c # post \<and> ok c \<and> score c = r' \<and> out c = x' \<and> score a < r' \<and>
          (\<forall>d\<in>set pre. ok d \<longrightarrow> score d < r')"
      then obtain pre c post where h: "cs = pre @ c # post" "ok c" "score c = r'" "out c = x'"
        "score a < r'" "\<forall>d\<in>set pre. ok d \<longrightarrow> score d < r'" by blast
      with True have "a # cs = (a # pre) @ c # post \<and> ok c \<and> score c = r' \<and> out c = x' \<and> r < r' \<and>
          (\<forall>d\<in>set (a # pre). ok d \<longrightarrow> score d < r')" by auto
      then show ?thesis by blast
    qed
    with le all True show ?thesis by auto
  next
    case False
    with Cons.prems have f: "fold (Pick score ok out) cs (r, x) = (r', x')"
      by (simp add: Pick_skip)
    from Cons.IH [OF f] have le: "r \<le> r'" and all: "\<forall>c\<in>set cs. ok c \<longrightarrow> score c \<le> r'"
      and dis: "(r', x') = (r, x) \<or>
        (\<exists>pre c post. cs = pre @ c # post \<and> ok c \<and> score c = r' \<and> out c = x' \<and> r < r' \<and>
          (\<forall>d\<in>set pre. ok d \<longrightarrow> score d < r'))" by auto
    from False le have a: "ok a \<longrightarrow> score a \<le> r'" by auto
    from dis have "(r', x') = (r, x) \<or> (\<exists>pre c post. a # cs = pre @ c # post \<and> ok c \<and> score c = r' \<and> out c = x' \<and> r < r' \<and>
          (\<forall>d\<in>set pre. ok d \<longrightarrow> score d < r'))"
    proof
      assume "(r', x') = (r, x)" then show ?thesis by simp
    next
      assume "\<exists>pre c post. cs = pre @ c # post \<and> ok c \<and> score c = r' \<and> out c = x' \<and> r < r' \<and>
          (\<forall>d\<in>set pre. ok d \<longrightarrow> score d < r')"
      then obtain pre c post where h: "cs = pre @ c # post" "ok c" "score c = r'" "out c = x'"
        "r < r'" "\<forall>d\<in>set pre. ok d \<longrightarrow> score d < r'" by blast
      with False have "a # cs = (a # pre) @ c # post \<and> ok c \<and> score c = r' \<and> out c = x' \<and> r < r' \<and>
          (\<forall>d\<in>set (a # pre). ok d \<longrightarrow> score d < r')" by auto
      then show ?thesis by blast
    qed
    with le all a show ?thesis by auto
  qed
qed

lemma fold_Pick_FirstBest:
  assumes f: "fold (Pick score ok out) cs (r, x) = (r', x')"
    and b: "FirstBest score (filter ok cs) = Some c" and pos: "r < score c"
  shows "x' = out c \<and> r' = score c"
proof -
  from b have cin: "c \<in> set (filter ok cs)" and cmax: "\<forall>d\<in>set (filter ok cs). score d \<le> score c"
    using find_SomeD [of "\<lambda>c. \<forall>d\<in>set (filter ok cs). score d \<le> score c" "filter ok cs" c]
    by (auto simp: FirstBest_def)
  from fold_Pick [OF f] have all: "\<forall>c\<in>set cs. ok c \<longrightarrow> score c \<le> r'"
    and dis: "(r', x') = (r, x) \<or>
      (\<exists>pre c post. cs = pre @ c # post \<and> ok c \<and> score c = r' \<and> out c = x' \<and> r < r' \<and>
          (\<forall>d\<in>set pre. ok d \<longrightarrow> score d < r'))" by auto
  from cin all have "score c \<le> r'" by auto
  with pos have "r < r'" by simp
  with dis obtain pre c' post where h: "cs = pre @ c' # post" "ok c'" "score c' = r'" "out c' = x'"
        "\<forall>d\<in>set pre. ok d \<longrightarrow> score d < r'" by auto
  from h(1,2) have c'in: "c' \<in> set (filter ok cs)" by simp
  with cmax have "score c' \<le> score c" by blast
  with \<open>score c \<le> r'\<close> h(3) have eq: "score c = r'" by simp
  have split: "filter ok cs = filter ok pre @ c' # filter ok post" using h(1,2) by simp
  have pre: "\<forall>d\<in>set (filter ok pre). \<not> (\<forall>e\<in>set (filter ok cs). score e \<le> score d)"
  proof
    fix d assume "d \<in> set (filter ok pre)"
    with h(5) have "score d < r'" by simp
    with c'in h(3) show "\<not> (\<forall>e\<in>set (filter ok cs). score e \<le> score d)"
      by (metis not_less)
  qed
  have c'max: "\<forall>e\<in>set (filter ok cs). score e \<le> score c'" using cmax eq h(3) by simp
  have "find (\<lambda>c. \<forall>d\<in>set (filter ok cs). score d \<le> score c) (filter ok pre @ c' # filter ok post) = Some c'"
    using pre c'max by (rule find_first)
  with b have "c = c'" by (simp add: FirstBest_def split)
  with h eq show ?thesis by simp
qed

lemma fold_Pick_none:
  "\<forall>c\<in>set cs. ok c \<longrightarrow> score c \<le> r \<Longrightarrow> fold (Pick score ok out) cs (r, x) = (r, x)"
proof (induction cs)
  case Nil
  then show ?case by simp
next
  case (Cons a cs)
  then have "\<not> (score a > fst (r, x) \<and> ok a)" by auto
  then have "Pick score ok out a (r, x) = (r, x)" by (rule Pick_skip)
  with Cons show ?case by simp
qed

subsubsection \<open>The loops of the data search\<close>

lemma TestCandidate_Pick:
  assumes B: "BuildSnrThresholds env = Inr B" and C: "Consistent (s_thresholds s) B"
    and tv: "m_mode (s_txVector s) = mode" "m_nss (s_txVector s) = nss"
            "m_channelWidth (s_txVector s) = channelWidth"
    and ok: "TestCandidate env station channelWidth mode nss s = Inr s'"
  shows "s_txVector s' = s_txVector s \<and> Consistent (s_thresholds s') B \<and>
         SearchAcc s' = PickData env B station (s_txVector s) (SearchAcc s)"
proof -
  from ok obtain t T' where g: "GetSnrThreshold env (s_thresholds s) (s_txVector s) = Inr (t, T')"
    by (auto simp: TestCandidate_def split: sum.splits)
  from GetSnrThreshold_Consistent [OF B C g]
  have thr: "Threshold B (s_txVector s) = Some t" and C': "Consistent T' B" by auto
  have q: "spec_Qualifies B station (s_txVector s) = (t < GetLastObservedSnr station channelWidth nss)"
    using thr tv by (simp add: spec_Qualifies_def)
  have r: "spec_DataRate env (s_txVector s) =
     mode_GetDataRate env mode (m_channelWidth (s_txVector s)) (m_guardInterval (s_txVector s)) nss"
    using tv by (simp add: spec_DataRate_def)
  show ?thesis
  proof (cases "s_bestRate s < spec_DataRate env (s_txVector s) \<and> spec_Qualifies B station (s_txVector s)")
    case True
    then have p: "PickData env B station (s_txVector s) (SearchAcc s) = (spec_DataRate env (s_txVector s), ModeNss (s_txVector s))"
      by (simp add: Pick_take SearchAcc_def)
    from True ok g q r have "s' = s\<lparr>s_thresholds := T', s_bestRate := spec_DataRate env (s_txVector s), s_maxMode := mode, s_selectedNss := nss\<rparr>"
      by (simp add: TestCandidate_def Let_def)
    then show ?thesis using p C' tv by (simp add: SearchAcc_def ModeNss_def)
  next
    case False
    then have p: "PickData env B station (s_txVector s) (SearchAcc s) = SearchAcc s"
      by (simp add: Pick_skip SearchAcc_def)
    from False ok g q r have "s' = s\<lparr>s_thresholds := T'\<rparr>"
      by (auto simp add: TestCandidate_def Let_def)
    then show ?thesis using p C' by (simp add: SearchAcc_def)
  qed
qed

lemma foldE_NssStep:
  assumes B: "BuildSnrThresholds env = Inr B"
  shows "Consistent (s_thresholds s) B \<Longrightarrow> m_mode (s_txVector s) = mode \<Longrightarrow>
     m_channelWidth (s_txVector s) = channelWidth \<Longrightarrow>
     foldE (NssStep env station channelWidth mode) ns s = Inr s' \<Longrightarrow>
     Consistent (s_thresholds s') B \<and> m_channelWidth (s_txVector s') = channelWidth \<and>
     SearchAcc s' = fold (PickData env B station)
        (filter (txVector_IsValid env)
           (map (\<lambda>nss. \<lparr>m_mode = mode, m_guardInterval = m_guardInterval (s_txVector s),
                         m_nss = nss, m_channelWidth = channelWidth\<rparr>) ns)) (SearchAcc s)"
proof (induction ns arbitrary: s)
  case Nil
  then show ?case by simp
next
  case (Cons n ns)
  define c where "c = \<lparr>m_mode = mode, m_guardInterval = m_guardInterval (s_txVector s),
                         m_nss = n, m_channelWidth = channelWidth\<rparr>"
  define s1 where "s1 = s\<lparr>s_txVector := (s_txVector s)\<lparr>m_nss := n\<rparr>\<rparr>"
  have c: "s_txVector s1 = c" using Cons.prems(2,3) by (simp add: s1_def c_def)
  from Cons.prems(4) obtain s2 where step: "NssStep env station channelWidth mode n s = Inr s2"
    and rest: "foldE (NssStep env station channelWidth mode) ns s2 = Inr s'"
    by (auto split: sum.splits)
  have s2: "s_txVector s2 = c \<and> Consistent (s_thresholds s2) B \<and>
      SearchAcc s2 = fold (PickData env B station) (filter (txVector_IsValid env) [c]) (SearchAcc s)"
  proof (cases "txVector_IsValid env c")
    case False
    with step c have "s2 = s1" by (simp add: NssStep_def s1_def Let_def)
    with False c Cons.prems(1) show ?thesis by (simp add: s1_def SearchAcc_def)
  next
    case True
    with step c have t: "TestCandidate env station channelWidth mode n s1 = Inr s2"
      by (simp add: NssStep_def s1_def Let_def)
    have "Consistent (s_thresholds s1) B" using Cons.prems(1) by (simp add: s1_def)
    from TestCandidate_Pick [OF B this _ _ _ t] c True
    show ?thesis by (simp add: c_def) (simp add: SearchAcc_def s1_def)
  qed
  then have a: "Consistent (s_thresholds s2) B" "m_mode (s_txVector s2) = mode"
     "m_channelWidth (s_txVector s2) = channelWidth" "m_guardInterval (s_txVector s2) = m_guardInterval (s_txVector s)"
    by (simp_all add: c_def)
  from Cons.IH [OF a(1,2,3) rest] s2 a(4) show ?case
    by (simp add: c_def)
qed

lemma NssLoop_Pick:
  assumes B: "BuildSnrThresholds env = Inr B" and C: "Consistent (s_thresholds s) B"
    and tv: "m_mode (s_txVector s) = mode" "m_channelWidth (s_txVector s) = channelWidth"
    and ok: "NssLoop env station channelWidth mode s = Inr s'"
  shows "Consistent (s_thresholds s') B \<and> m_channelWidth (s_txVector s') = channelWidth \<and>
     SearchAcc s' = fold (PickData env B station)
        (filter (txVector_IsValid env)
           (map (\<lambda>nss. \<lparr>m_mode = mode, m_guardInterval = m_guardInterval (s_txVector s),
                         m_nss = nss, m_channelWidth = channelWidth\<rparr>) [1..<Suc (StreamLimit env station)]))
        (SearchAcc s)"
proof -
  from ok have "foldE (NssStep env station channelWidth mode) [1..<Suc (StreamLimit env station)] s = Inr s'"
    by (auto simp: NssLoop_def StreamLimit_def Let_def split: sum.splits if_splits)
  from foldE_NssStep [OF B C tv this] show ?thesis .
qed

lemma McsStep_Pick:
  assumes B: "BuildSnrThresholds env = Inr B" and C: "Consistent (s_thresholds s) B"
    and w: "m_channelWidth (s_txVector s) = channelWidth"
    and ok: "McsStep env station channelWidth mode s = Inr s'"
  shows "Consistent (s_thresholds s') B \<and> m_channelWidth (s_txVector s') = channelWidth \<and>
     SearchAcc s' = fold (PickData env B station) (spec_McsCombinations env station channelWidth mode)
        (SearchAcc s)"
proof -
  define g where "g = (if GetModulationClass mode = WIFI_MOD_CLASS_HT \<or> GetModulationClass mode = WIFI_MOD_CLASS_VHT
      then ShortGuardInterval env station else HeGuardInterval env station)"
  define s1 where "s1 = s\<lparr>s_txVector := (s_txVector s)\<lparr>m_mode := mode, m_guardInterval := g\<rparr>\<rparr>"
  have s1: "Consistent (s_thresholds s1) B" "m_mode (s_txVector s1) = mode"
     "m_channelWidth (s_txVector s1) = channelWidth" "m_guardInterval (s_txVector s1) = g"
     "SearchAcc s1 = SearchAcc s"
    using C w by (simp_all add: s1_def SearchAcc_def)
  consider (skip) "spec_McsCombinations env station channelWidth mode = []" "s' = s1"
    | (loop) "GetModulationClass mode \<noteq> WIFI_MOD_CLASS_HT" "NssLoop env station channelWidth mode s1 = Inr s'"
       "spec_McsCombinations env station channelWidth mode = filter (txVector_IsValid env)
           (map (\<lambda>nss. \<lparr>m_mode = mode, m_guardInterval = g,
                         m_nss = nss, m_channelWidth = channelWidth\<rparr>) [1..<Suc (StreamLimit env station)])"
    | (ht) "GetModulationClass mode = WIFI_MOD_CLASS_HT"
       "\<not> (GetVhtSupported env \<and> st_VhtSupported (m_state station))"
       "\<not> (GetHeSupported env \<and> st_HeSupported (m_state station))"
    using ok unfolding McsStep_def spec_McsCombinations_def s1_def g_def Let_def
    by (auto split: if_splits)
  then show ?thesis
  proof cases
    case skip
    with s1 show ?thesis by simp
  next
    case loop
    from NssLoop_Pick [OF B s1(1,2,3) loop(2)] loop(3) s1(4,5) show ?thesis by simp
  next
    case ht
    define nss where "nss = GetMcsValue mode div 8 + 1"
    define c where "c = \<lparr>m_mode = mode, m_guardInterval = ShortGuardInterval env station,
                        m_nss = nss, m_channelWidth = channelWidth\<rparr>"
    define s2 where "s2 = s1\<lparr>s_txVector := (s_txVector s1)\<lparr>m_nss := nss\<rparr>\<rparr>"
    have c: "s_txVector s2 = c" using w ht(1) by (simp add: s2_def s1_def c_def g_def)
    from ht have nv: "(GetVhtSupported env \<and> st_VhtSupported (m_state station)) = False"
       "(GetHeSupported env \<and> st_HeSupported (m_state station)) = False" by simp_all
    have combos: "spec_McsCombinations env station channelWidth mode =
         filter (\<lambda>c. txVector_IsValid env c \<and> m_nss c \<le> StreamLimit env station) [c]"
      by (simp add: spec_McsCombinations_def c_def nss_def Let_def nv ht(1))
    have step: "McsStep env station channelWidth mode s =
        (if \<not> txVector_IsValid env (s_txVector s2) \<or> nss > StreamLimit env station then Inr s2
         else TestCandidate env station channelWidth mode nss s2)"
      by (simp add: McsStep_def Let_def s2_def s1_def g_def nss_def StreamLimit_def nv ht(1))
    show ?thesis
    proof (cases "txVector_IsValid env c \<and> nss \<le> StreamLimit env station")
      case False
      with ok step c have "s' = s2" by (auto simp: not_le)
      with False combos s1 show ?thesis by (auto simp add: s2_def SearchAcc_def c_def)
    next
      case True
      with ok step c have t: "TestCandidate env station channelWidth mode nss s2 = Inr s'"
        by (auto simp: not_le)
      have "Consistent (s_thresholds s2) B" using s1(1) by (simp add: s2_def)
      from TestCandidate_Pick [OF B this _ _ _ t] c True combos s1(5)
      show ?thesis by (simp add: c_def) (simp add: SearchAcc_def s2_def)
    qed
  qed
qed

lemma foldE_McsStep:
  assumes B: "BuildSnrThresholds env = Inr B"
  shows "Consistent (s_thresholds s) B \<Longrightarrow> m_channelWidth (s_txVector s) = channelWidth \<Longrightarrow>
     foldE (McsStep env station channelWidth) modes s = Inr s' \<Longrightarrow>
     Consistent (s_thresholds s') B \<and>
     SearchAcc s' = fold (PickData env B station)
        (concat (map (spec_McsCombinations env station channelWidth) modes)) (SearchAcc s)"
proof (induction modes arbitrary: s)
  case Nil
  then show ?case by simp
next
  case (Cons mode modes)
  from Cons.prems(3) obtain s2 where step: "McsStep env station channelWidth mode s = Inr s2"
    and rest: "foldE (McsStep env station channelWidth) modes s2 = Inr s'"
    by (auto split: sum.splits)
  from McsStep_Pick [OF B Cons.prems(1,2) step]
  have a: "Consistent (s_thresholds s2) B" "m_channelWidth (s_txVector s2) = channelWidth"
    and b: "SearchAcc s2 = fold (PickData env B station) (spec_McsCombinations env station channelWidth mode)
        (SearchAcc s)" by auto
  from Cons.IH [OF a rest] b show ?case by simp
qed

lemma NonHtStep_unfold:
  "GetChannelWidthForNonHtMode mode = Inr w \<Longrightarrow>
   NonHtStep env station mode s =
     (case GetSnrThreshold env (s_thresholds s)
             ((s_txVector s)\<lparr>m_mode := mode, m_nss := s_selectedNss s, m_channelWidth := w\<rparr>) of
        Inl e \<Rightarrow> Inl e
      | Inr (t, T') \<Rightarrow>
          Inr (if mode_GetDataRate env mode w (m_guardInterval (s_txVector s)) (s_selectedNss s)
                    > s_bestRate s \<and> t < GetLastObservedSnr station w 1
               then s\<lparr>s_txVector := (s_txVector s)\<lparr>m_mode := mode, m_nss := s_selectedNss s,
                                                     m_channelWidth := w\<rparr>,
                      s_thresholds := T',
                      s_bestRate := mode_GetDataRate env mode w (m_guardInterval (s_txVector s))
                                      (s_selectedNss s),
                      s_maxMode := mode\<rparr>
               else s\<lparr>s_txVector := (s_txVector s)\<lparr>m_mode := mode, m_nss := s_selectedNss s,
                                                     m_channelWidth := w\<rparr>,
                      s_thresholds := T'\<rparr>))"
  by (auto simp add: NonHtStep_def Let_def split: sum.split prod.split)

lemma NonHtStep_Pick:
  assumes B: "BuildSnrThresholds env = Inr B" and C: "Consistent (s_thresholds s) B"
    and inv: "m_guardInterval (s_txVector s) = 800" "s_selectedNss s = 1"
    and ok: "NonHtStep env station mode s = Inr s'"
  shows "Consistent (s_thresholds s') B \<and> m_guardInterval (s_txVector s') = 800 \<and> s_selectedNss s' = 1 \<and>
     SearchAcc s' = PickData env B station
        \<lparr>m_mode = mode, m_guardInterval = 800, m_nss = 1, m_channelWidth = NonHtWidth mode\<rparr> (SearchAcc s)"
proof -
  define c where "c = \<lparr>m_mode = mode, m_guardInterval = 800, m_nss = 1, m_channelWidth = NonHtWidth mode\<rparr>"
  from ok have wd: "GetChannelWidthForNonHtMode mode = Inr (NonHtWidth mode)"
    by (auto simp: NonHtStep_def GetChannelWidthForNonHtMode_def NonHtWidth_def Let_def split: sum.splits if_splits)
  have v: "(s_txVector s)\<lparr>m_mode := mode, m_nss := 1, m_channelWidth := NonHtWidth mode\<rparr> = c"
    using inv by (cases "s_txVector s") (simp add: c_def)
  have r: "spec_DataRate env c = mode_GetDataRate env mode (NonHtWidth mode) 800 1"
    by (simp add: spec_DataRate_def c_def)
  note step = NonHtStep_unfold [OF wd, of env station s, unfolded inv, unfolded v, folded r]
  from ok step obtain t T' where g: "GetSnrThreshold env (s_thresholds s) c = Inr (t, T')"
    by (auto split: sum.splits)
  from GetSnrThreshold_Consistent [OF B C g]
  have thr: "Threshold B c = Some t" and C': "Consistent T' B" by auto
  have q: "spec_Qualifies B station c = (t < GetLastObservedSnr station (NonHtWidth mode) 1)"
    using thr by (simp add: spec_Qualifies_def c_def)
  show ?thesis
  proof (cases "s_bestRate s < spec_DataRate env c \<and> spec_Qualifies B station c")
    case True
    then have p: "PickData env B station c (SearchAcc s) = (spec_DataRate env c, ModeNss c)"
      by (simp add: Pick_take SearchAcc_def)
    from True ok step g q have "s' = s\<lparr>s_txVector := c, s_thresholds := T', s_bestRate := spec_DataRate env c, s_maxMode := mode\<rparr>"
      by simp
    then show ?thesis using p C' inv unfolding c_def [symmetric]
      by (simp add: SearchAcc_def ModeNss_def) (simp add: c_def)
  next
    case False
    then have p: "PickData env B station c (SearchAcc s) = SearchAcc s"
      by (simp add: Pick_skip SearchAcc_def)
    from False ok step g q have "s' = s\<lparr>s_txVector := c, s_thresholds := T'\<rparr>"
      by auto
    then show ?thesis using p C' inv unfolding c_def [symmetric]
      by (simp add: SearchAcc_def) (simp add: c_def)
  qed
qed

lemma foldE_NonHtStep:
  assumes B: "BuildSnrThresholds env = Inr B"
  shows "Consistent (s_thresholds s) B \<Longrightarrow> m_guardInterval (s_txVector s) = 800 \<Longrightarrow> s_selectedNss s = 1 \<Longrightarrow>
     foldE (NonHtStep env station) modes s = Inr s' \<Longrightarrow>
     Consistent (s_thresholds s') B \<and>
     SearchAcc s' = fold (PickData env B station)
        (map (\<lambda>mode. \<lparr>m_mode = mode, m_guardInterval = 800, m_nss = 1, m_channelWidth = NonHtWidth mode\<rparr>) modes)
        (SearchAcc s)"
proof (induction modes arbitrary: s)
  case Nil
  then show ?case by simp
next
  case (Cons mode modes)
  from Cons.prems(4) obtain s2 where step: "NonHtStep env station mode s = Inr s2"
    and rest: "foldE (NonHtStep env station) modes s2 = Inr s'"
    by (auto split: sum.splits)
  from NonHtStep_Pick [OF B Cons.prems(1,2,3) step]
  have a: "Consistent (s_thresholds s2) B" "m_guardInterval (s_txVector s2) = 800" "s_selectedNss s2 = 1"
    and b: "SearchAcc s2 = PickData env B station
        \<lparr>m_mode = mode, m_guardInterval = 800, m_nss = 1, m_channelWidth = NonHtWidth mode\<rparr> (SearchAcc s)" by auto
  from Cons.IH [OF a rest] b show ?case by simp
qed

lemma Search_Pick:
  assumes B: "BuildSnrThresholds env = Inr B" and C: "Consistent T B"
    and ok: "Search env station channelWidth
        \<lparr>s_txVector = WifiTxVector_default\<lparr>m_channelWidth := channelWidth\<rparr>, s_bestRate = 0,
         s_maxMode = d, s_selectedNss = 1, s_thresholds = T\<rparr> = Inr s'"
  shows "Consistent (s_thresholds s') B \<and>
     SearchAcc s' = fold (PickData env B station) (spec_Combinations env station channelWidth) (0, d, 1)"
proof (cases "GetHtSupported env \<and> st_HtSupported (m_state station)")
  case True
  with ok have f: "foldE (McsStep env station channelWidth) (st_McsSupported (m_state station))
     \<lparr>s_txVector = WifiTxVector_default\<lparr>m_channelWidth := channelWidth\<rparr>, s_bestRate = 0,
         s_maxMode = d, s_selectedNss = 1, s_thresholds = T\<rparr> = Inr s'"
    by (simp add: Search_def)
  from foldE_McsStep [OF B _ _ f] C True show ?thesis
    by (simp add: spec_Combinations_def SearchAcc_def)
next
  case False
  with ok have f: "foldE (NonHtStep env station) (st_Supported (m_state station))
     \<lparr>s_txVector = WifiTxVector_default\<lparr>m_channelWidth := channelWidth\<rparr>, s_bestRate = 0,
         s_maxMode = d, s_selectedNss = 1, s_thresholds = T\<rparr> = Inr s'"
    by (auto simp add: Search_def)
  from False have nc: "(GetHtSupported env \<and> st_HtSupported (m_state station)) = False" by simp
  from foldE_NonHtStep [OF B _ _ _ f] C show ?thesis
    by (simp add: spec_Combinations_def nc SearchAcc_def WifiTxVector_default_def)
qed

lemma warmup_search:
  assumes warm: "now < 10"
    and miss: "\<not> CacheHit station (min (st_ChannelWidth (m_state station)) allowedWidth)"
    and B: "BuildSnrThresholds env = Inr B" and C: "Consistent (m_thresholds vars) B"
    and ok: "DoGetDataTxVector env station vars now allowedWidth = Inr (v, station', vars')"
  shows "\<exists>r. fold (PickData env B station)
            (spec_Combinations env station (min (st_ChannelWidth (m_state station)) allowedWidth))
            (0, st_DefaultModeForSta (m_state station), 1) = (r, m_mode v, m_nss v) \<and>
         station' = station\<lparr>m_lastSnrCached := m_lastSnrObserved station,
                            m_lastMode := m_mode v, m_lastNss := m_nss v,
                            m_lastChannelWidth := min (st_ChannelWidth (m_state station)) allowedWidth\<rparr> \<and>
         Consistent (m_thresholds vars') B"
proof -
  define cw where "cw = min (st_ChannelWidth (m_state station)) allowedWidth"
  define s0 where "s0 = \<lparr>s_txVector = WifiTxVector_default\<lparr>m_channelWidth := cw\<rparr>, s_bestRate = 0,
         s_maxMode = st_DefaultModeForSta (m_state station), s_selectedNss = 1,
         s_thresholds = m_thresholds vars\<rparr>"
  from ok warm miss obtain s where s: "Search env station cw s0 = Inr s"
    and sel: "SelectMode env station vars now cw = Inr (s_maxMode s, s_selectedNss s,
                       station\<lparr>m_lastSnrCached := m_lastSnrObserved station,
                               m_lastMode := s_maxMode s,
                               m_lastNss := s_selectedNss s\<rparr>,
                       vars\<lparr>m_thresholds := s_thresholds s\<rparr>)"
    by (auto simp: DoGetDataTxVector_def SelectMode_def Let_def cw_def s0_def split: sum.splits)
  from Search_Pick [OF B C s [unfolded s0_def]]
  have C': "Consistent (s_thresholds s) B" and
    acc: "SearchAcc s = fold (PickData env B station) (spec_Combinations env station cw)
            (0, st_DefaultModeForSta (m_state station), 1)" by auto
  from ok sel have v: "m_mode v = s_maxMode s" "m_nss v = s_selectedNss s"
    and st: "station' = station\<lparr>m_lastSnrCached := m_lastSnrObserved station,
                               m_lastMode := s_maxMode s,
                               m_lastNss := s_selectedNss s, m_lastChannelWidth := cw\<rparr>"
    and va: "m_thresholds vars' = s_thresholds s"
    by (auto simp: DoGetDataTxVector_def Let_def cw_def [symmetric] split: if_splits)
  from acc v have "fold (PickData env B station) (spec_Combinations env station cw)
            (0, st_DefaultModeForSta (m_state station), 1) = (s_bestRate s, m_mode v, m_nss v)"
    by (simp add: SearchAcc_def)
  with st v va C' show ?thesis unfolding cw_def by auto
qed

subsubsection \<open>The loop of the control-rate search\<close>





subsubsection \<open>The example, evaluated\<close>

lemmas ex_modes = OfdmRate6Mbps_def OfdmRate12Mbps_def OfdmRate24Mbps_def DsssRate11Mbps_def
  HeMcs0_def HeMcs7_def HeMcs11_def

lemma ex_env_simps:
  "GetHtSupported ex_env = True" "GetVhtSupported ex_env = True" "GetHeSupported ex_env = True"
  "GetShortGuardIntervalSupported ex_env = False" "GetGuardInterval ex_env = 800"
  "GetMaxNumberOfTransmitStreams ex_env = 2" "GetDefaultMode ex_env = OfdmRate6Mbps"
  "GetBasicModes ex_env = [OfdmRate6Mbps, DsssRate11Mbps, OfdmRate12Mbps, OfdmRate24Mbps]"
  "m_ber ex_env = 1 / 10000000" "m_autoMCS ex_env = False" "phy_GetChannelWidth ex_env = 20"
  "phy_GetModeList ex_env = [OfdmRate6Mbps, DsssRate11Mbps, OfdmRate12Mbps, OfdmRate24Mbps]"
  "phy_GetMcsList ex_env = [HeMcs0, HeMcs7, HeMcs11]"
  "phy_GetMaxSupportedTxSpatialStreams ex_env = 2"
  "phy_CalculateSnr ex_env = ex_CalculateSnr"
  "phy_GetTxBandwidth ex_env = (\<lambda>mode width. width)"
  "mode_GetDataRate ex_env = ex_GetDataRate"
  "mode_IsAllowed ex_env = (\<lambda>mode width nss. True)"
  "txVector_IsValid ex_env = (\<lambda>txVector. True)"
  by (simp_all add: ex_env_def)

lemma ex_state_simps:
  "st_HtSupported ex_state = True" "st_VhtSupported ex_state = True" "st_HeSupported ex_state = True"
  "st_ShortGuardIntervalSupported ex_state = False" "st_GuardInterval ex_state = 800"
  "st_ChannelWidth ex_state = 20" "st_NumberOfSupportedStreams ex_state = 2"
  "st_McsSupported ex_state = [HeMcs0, HeMcs7, HeMcs11]"
  "st_Supported ex_state = [OfdmRate6Mbps, OfdmRate12Mbps, OfdmRate24Mbps]"
  "st_DefaultModeForSta ex_state = OfdmRate6Mbps"
  by (simp_all add: ex_state_def)

lemma ex_station_simps:
  "m_state (ex_station snr) = ex_state" "m_lastSnrObserved (ex_station snr) = snr"
  "m_lastChannelWidthObserved (ex_station snr) = 20" "m_lastNssObserved (ex_station snr) = 1"
  "m_lastSnrCached (ex_station snr) = - 100" "m_lastNss (ex_station snr) = 1"
  "m_lastMode (ex_station snr) = OfdmRate6Mbps" "m_lastChannelWidth (ex_station snr) = 0"
  by (simp_all add: ex_station_def CACHE_INITIAL_VALUE_def)

lemmas ex_simps = ex_env_simps ex_state_simps ex_station_simps ex_modes ex_CalculateSnr_def
  ex_GetDataRate_def ex_NonHtNumber_def ex_vars_def upt_rec Let_def

lemma ex_Build: "BuildSnrThresholds ex_env = Inr ex_table"
  by (simp add: BuildSnrThresholds_def BuildModeStep_def BuildMcsStep_def
      BuildWidthStep_def BuildNssStep_def ChannelWidthLoop_def GetChannelWidthForNonHtMode_def
      AddSnrThreshold_def WifiTxVector_default_def ex_table_def ex_simps)

lemma ex_Consistent: "Consistent [] ex_table" "Consistent ex_table ex_table"
  by (simp_all add: Consistent_def list_all_iff)

lemma ex_Search:
  "DoGetDataTxVector ex_env (ex_station 30) (ex_vars [] []) 1 20 =
     Inr (\<lparr>m_mode = HeMcs7, m_guardInterval = 800, m_nss = 1, m_channelWidth = 20\<rparr>,
          (ex_station 30)\<lparr>m_lastSnrCached := 30, m_lastMode := HeMcs7, m_lastNss := 1,
                            m_lastChannelWidth := 20\<rparr>,
          \<lparr>m_thresholds = ex_table, m_currentRate = 160, choosenMCS = []\<rparr>)"
  by (simp add: DoGetDataTxVector_def SelectMode_def CacheHit_def Search_def McsStep_def
      NssLoop_def NssStep_def TestCandidate_def GetSnrThreshold_def ex_Build
      GetLastObservedSnr_def HeGuardInterval_def ShortGuardInterval_def
      CACHE_INITIAL_VALUE_def WifiTxVector_default_def ex_table_def SameKey_def ex_simps)

subsubsection \<open>The history and its mean\<close>

lemma fold_add_sum:
  "fold (\<lambda>it average. average + real_of_int it) xs a = a + real_of_int (sum_list xs)"
  by (induction xs arbitrary: a) auto

lemma ConvergedMcs_eq:
  "ConvergedMcs h = (if h = [] then Inl McsMeanUndefined else Inr (spec_MeanCeil h))"
  by (simp add: ConvergedMcs_def fold_add_sum spec_MeanCeil_def)


lemma fold_append_replicate: "fold (\<lambda>i h. h @ [x]) is h = h @ replicate (length is) x"
  by (induction "is" arbitrary: h) (auto simp: replicate_append_same)


subsubsection \<open>More of the example\<close>


lemma ex_Combinations:
  "spec_Combinations ex_env (ex_station snr) 20 =
     [\<lparr>m_mode = HeMcs0, m_guardInterval = 800, m_nss = 1, m_channelWidth = 20\<rparr>,
      \<lparr>m_mode = HeMcs0, m_guardInterval = 800, m_nss = 2, m_channelWidth = 20\<rparr>,
      \<lparr>m_mode = HeMcs7, m_guardInterval = 800, m_nss = 1, m_channelWidth = 20\<rparr>,
      \<lparr>m_mode = HeMcs7, m_guardInterval = 800, m_nss = 2, m_channelWidth = 20\<rparr>,
      \<lparr>m_mode = HeMcs11, m_guardInterval = 800, m_nss = 1, m_channelWidth = 20\<rparr>,
      \<lparr>m_mode = HeMcs11, m_guardInterval = 800, m_nss = 2, m_channelWidth = 20\<rparr>]"
  by (simp add: spec_Combinations_def spec_McsCombinations_def StreamLimit_def
      HeGuardInterval_def ShortGuardInterval_def ex_simps)

lemma ex_Candidates:
  "spec_Candidates ex_env ex_table (ex_station 30) 20 =
     [\<lparr>m_mode = HeMcs0, m_guardInterval = 800, m_nss = 1, m_channelWidth = 20\<rparr>,
      \<lparr>m_mode = HeMcs0, m_guardInterval = 800, m_nss = 2, m_channelWidth = 20\<rparr>,
      \<lparr>m_mode = HeMcs7, m_guardInterval = 800, m_nss = 1, m_channelWidth = 20\<rparr>]"
  by (simp add: spec_Candidates_def ex_Combinations spec_Qualifies_def Threshold_def
      ex_table_def SameKey_def GetLastObservedSnr_def ex_simps)

lemma ex_FirstBest:
  "FirstBest (spec_DataRate ex_env) (spec_Candidates ex_env ex_table (ex_station 30) 20) =
     Some \<lparr>m_mode = HeMcs7, m_guardInterval = 800, m_nss = 1, m_channelWidth = 20\<rparr>"
  by (simp add: ex_Candidates FirstBest_def spec_DataRate_def ex_simps)

lemma ex_NoCandidates: "spec_Candidates ex_env ex_table (ex_station 1) 20 = []"
  by (simp add: spec_Candidates_def ex_Combinations spec_Qualifies_def Threshold_def
      ex_table_def SameKey_def GetLastObservedSnr_def ex_simps)

lemma ex_Fallback:
  "DoGetDataTxVector ex_env (ex_station 1) (ex_vars ex_table []) 1 20 =
     Inr (\<lparr>m_mode = OfdmRate6Mbps, m_guardInterval = 800, m_nss = 1, m_channelWidth = 20\<rparr>,
          (ex_station 1)\<lparr>m_lastSnrCached := 1, m_lastMode := OfdmRate6Mbps, m_lastNss := 1,
                           m_lastChannelWidth := 20\<rparr>,
          \<lparr>m_thresholds = ex_table, m_currentRate = 6, choosenMCS = []\<rparr>)"
  by (simp add: DoGetDataTxVector_def SelectMode_def CacheHit_def Search_def McsStep_def
      NssLoop_def NssStep_def TestCandidate_def GetSnrThreshold_def ex_Build
      GetLastObservedSnr_def HeGuardInterval_def ShortGuardInterval_def
      CACHE_INITIAL_VALUE_def WifiTxVector_default_def ex_table_def SameKey_def ex_simps)



subsubsection \<open>The searches return\<close>

lemma GetChannelWidthForNonHtMode_returns:
  "IsNonHtMode mode \<Longrightarrow> GetChannelWidthForNonHtMode mode = Inr (NonHtWidth mode)"
  by (simp add: IsNonHtMode_def GetChannelWidthForNonHtMode_def NonHtWidth_def)

lemma GetSnrThreshold_returns:
  assumes B: "BuildSnrThresholds env = Inr B" and C: "Consistent T B"
    and t: "Threshold B v = Some t"
  shows "\<exists>T'. GetSnrThreshold env T v = Inr (t, T')"
proof (cases "find (SameKey v) T")
  case None
  with B t show ?thesis
    by (auto simp: GetSnrThreshold_def Threshold_def split: option.splits)
next
  case (Some p)
  from Consistent_Threshold [OF C Some] t have "fst p = t" by simp
  with Some show ?thesis by (simp add: GetSnrThreshold_def)
qed

lemma TestCandidate_returns:
  assumes B: "BuildSnrThresholds env = Inr B" and C: "Consistent (s_thresholds s) B"
    and t: "Threshold B (s_txVector s) \<noteq> None"
  shows "\<exists>s'. TestCandidate env station channelWidth mode nss s = Inr s'"
proof -
  from t obtain th where "Threshold B (s_txVector s) = Some th" by auto
  from GetSnrThreshold_returns [OF B C this] obtain T' where
    "GetSnrThreshold env (s_thresholds s) (s_txVector s) = Inr (th, T')" by auto
  then show ?thesis by (simp add: TestCandidate_def Let_def)
qed

lemma foldE_NssStep_returns:
  assumes B: "BuildSnrThresholds env = Inr B"
  shows "Consistent (s_thresholds s) B \<Longrightarrow> m_mode (s_txVector s) = mode \<Longrightarrow>
     m_channelWidth (s_txVector s) = channelWidth \<Longrightarrow>
     \<forall>c\<in>set (filter (txVector_IsValid env)
           (map (\<lambda>nss. \<lparr>m_mode = mode, m_guardInterval = m_guardInterval (s_txVector s),
                         m_nss = nss, m_channelWidth = channelWidth\<rparr>) ns)). Threshold B c \<noteq> None \<Longrightarrow>
     \<exists>s'. foldE (NssStep env station channelWidth mode) ns s = Inr s'"
proof (induction ns arbitrary: s)
  case Nil
  then show ?case by simp
next
  case (Cons n ns)
  define c where "c = \<lparr>m_mode = mode, m_guardInterval = m_guardInterval (s_txVector s),
                         m_nss = n, m_channelWidth = channelWidth\<rparr>"
  define s1 where "s1 = s\<lparr>s_txVector := (s_txVector s)\<lparr>m_nss := n\<rparr>\<rparr>"
  have c: "s_txVector s1 = c" using Cons.prems(2,3) by (simp add: s1_def c_def)
  have C1: "Consistent (s_thresholds s1) B" using Cons.prems(1) by (simp add: s1_def)
  have "\<exists>s2. NssStep env station channelWidth mode n s = Inr s2 \<and> s_txVector s2 = c \<and>
            Consistent (s_thresholds s2) B"
  proof (cases "txVector_IsValid env c")
    case False
    with c C1 show ?thesis by (simp add: NssStep_def s1_def [symmetric] Let_def)
  next
    case True
    with Cons.prems(4) have "Threshold B (s_txVector s1) \<noteq> None" by (simp add: c c_def)
    from TestCandidate_returns [OF B C1 this] obtain s2 where
      t: "TestCandidate env station channelWidth mode n s1 = Inr s2" by blast
    from TestCandidate_Pick [OF B C1 _ _ _ t] c
    have "s_txVector s2 = c" "Consistent (s_thresholds s2) B" by (simp_all add: c_def)
    with True t c show ?thesis by (simp add: NssStep_def s1_def [symmetric] Let_def)
  qed
  then obtain s2 where step: "NssStep env station channelWidth mode n s = Inr s2"
    and s2: "s_txVector s2 = c" "Consistent (s_thresholds s2) B" by blast
  have "\<exists>s'. foldE (NssStep env station channelWidth mode) ns s2 = Inr s'"
    using Cons.prems(4) s2 by (intro Cons.IH) (simp_all add: c_def)
  with step show ?case by simp
qed

lemma NssLoop_returns:
  assumes B: "BuildSnrThresholds env = Inr B" and C: "Consistent (s_thresholds s) B"
    and tv: "m_mode (s_txVector s) = mode" "m_channelWidth (s_txVector s) = channelWidth"
    and lim: "StreamLimit env station < 255"
    and t: "\<forall>c\<in>set (filter (txVector_IsValid env)
           (map (\<lambda>nss. \<lparr>m_mode = mode, m_guardInterval = m_guardInterval (s_txVector s),
                         m_nss = nss, m_channelWidth = channelWidth\<rparr>)
              [1..<Suc (StreamLimit env station)])). Threshold B c \<noteq> None"
  shows "\<exists>s'. NssLoop env station channelWidth mode s = Inr s'"
proof -
  from foldE_NssStep_returns [OF B C tv t] obtain s' where
    "foldE (NssStep env station channelWidth mode) [1..<Suc (StreamLimit env station)] s = Inr s'"
    by blast
  moreover from lim have "\<not> 255 \<le> StreamLimit env station" by simp
  ultimately show ?thesis
    unfolding NssLoop_def Let_def StreamLimit_def by (simp del: upt_Suc min_less_iff_conj)
qed

lemma McsStep_returns:
  assumes B: "BuildSnrThresholds env = Inr B" and C: "Consistent (s_thresholds s) B"
    and w: "m_channelWidth (s_txVector s) = channelWidth"
    and lim: "StreamLimit env station < 255"
    and t: "\<forall>c\<in>set (spec_McsCombinations env station channelWidth mode). Threshold B c \<noteq> None"
  shows "\<exists>s'. McsStep env station channelWidth mode s = Inr s'"
proof -
  define g where "g = (if GetModulationClass mode = WIFI_MOD_CLASS_HT \<or> GetModulationClass mode = WIFI_MOD_CLASS_VHT
      then ShortGuardInterval env station else HeGuardInterval env station)"
  define s1 where "s1 = s\<lparr>s_txVector := (s_txVector s)\<lparr>m_mode := mode, m_guardInterval := g\<rparr>\<rparr>"
  define bv where "bv = (GetVhtSupported env \<and> st_VhtSupported (m_state station))"
  define bh where "bh = (GetHeSupported env \<and> st_HeSupported (m_state station))"
  define loop where "loop = filter (txVector_IsValid env)
           (map (\<lambda>nss. \<lparr>m_mode = mode, m_guardInterval = g,
                         m_nss = nss, m_channelWidth = channelWidth\<rparr>) [1..<Suc (StreamLimit env station)])"
  have s1: "Consistent (s_thresholds s1) B" "m_mode (s_txVector s1) = mode"
     "m_channelWidth (s_txVector s1) = channelWidth" "m_guardInterval (s_txVector s1) = g"
    using C w by (simp_all add: s1_def)
  have looping: "\<exists>s'. NssLoop env station channelWidth mode s1 = Inr s'"
    if "spec_McsCombinations env station channelWidth mode = loop"
  proof -
    from t that s1(4)
    have "\<forall>c\<in>set (filter (txVector_IsValid env)
           (map (\<lambda>nss. \<lparr>m_mode = mode, m_guardInterval = m_guardInterval (s_txVector s1),
                         m_nss = nss, m_channelWidth = channelWidth\<rparr>)
              [1..<Suc (StreamLimit env station)])). Threshold B c \<noteq> None"
      by (simp add: loop_def)
    from NssLoop_returns [OF B s1(1,2,3) lim this] show ?thesis .
  qed
  show ?thesis
  proof (cases "GetModulationClass mode = WIFI_MOD_CLASS_HT")
    case ht: True
    show ?thesis
    proof (cases "bv \<or> bh")
      case True
      then have "McsStep env station channelWidth mode s = Inr s1"
        unfolding bv_def bh_def by (auto simp add: McsStep_def Let_def s1_def g_def ht)
      then show ?thesis by simp
    next
      case False
      then have nv: "(GetVhtSupported env \<and> st_VhtSupported (m_state station)) = False"
       "(GetHeSupported env \<and> st_HeSupported (m_state station)) = False"
        by (simp_all add: bv_def bh_def)
      define nss where "nss = GetMcsValue mode div 8 + 1"
      define c where "c = \<lparr>m_mode = mode, m_guardInterval = ShortGuardInterval env station,
                        m_nss = nss, m_channelWidth = channelWidth\<rparr>"
      define s2 where "s2 = s1\<lparr>s_txVector := (s_txVector s1)\<lparr>m_nss := nss\<rparr>\<rparr>"
      have c: "s_txVector s2 = c" using w ht by (simp add: s2_def s1_def c_def g_def)
      have combos: "spec_McsCombinations env station channelWidth mode =
         filter (\<lambda>c. txVector_IsValid env c \<and> m_nss c \<le> StreamLimit env station) [c]"
        by (simp add: spec_McsCombinations_def c_def nss_def Let_def nv ht)
      have step: "McsStep env station channelWidth mode s =
        (if \<not> txVector_IsValid env (s_txVector s2) \<or> nss > StreamLimit env station then Inr s2
         else TestCandidate env station channelWidth mode nss s2)"
        by (simp add: McsStep_def Let_def s2_def s1_def g_def nss_def StreamLimit_def nv ht)
      show ?thesis
      proof (cases "txVector_IsValid env c \<and> nss \<le> StreamLimit env station")
        case False
        with step c show ?thesis by (auto simp: not_le)
      next
        case True
        with t combos have "Threshold B (s_txVector s2) \<noteq> None" by (simp add: c c_def)
        moreover have "Consistent (s_thresholds s2) B" using s1(1) by (simp add: s2_def)
        ultimately have "\<exists>s'. TestCandidate env station channelWidth mode nss s2 = Inr s'"
          using TestCandidate_returns [OF B] by blast
        with True step c show ?thesis by (auto simp: not_le)
      qed
    qed
  next
    case nht: False
    show ?thesis
    proof (cases "GetModulationClass mode = WIFI_MOD_CLASS_VHT")
      case vht: True
      show ?thesis
      proof (cases "bv \<and> \<not> bh")
        case True
        then have "McsStep env station channelWidth mode s = NssLoop env station channelWidth mode s1"
          "spec_McsCombinations env station channelWidth mode = loop"
          unfolding bv_def bh_def loop_def
          by (auto simp add: McsStep_def spec_McsCombinations_def Let_def s1_def g_def vht)
        with looping show ?thesis by simp
      next
        case False
        then have "McsStep env station channelWidth mode s = Inr s1"
          unfolding bv_def bh_def by (auto simp add: McsStep_def Let_def s1_def g_def vht)
        then show ?thesis by simp
      qed
    next
      case he: False
      show ?thesis
      proof (cases bh)
        case True
        then have "McsStep env station channelWidth mode s = NssLoop env station channelWidth mode s1"
          "spec_McsCombinations env station channelWidth mode = loop"
          unfolding bv_def bh_def loop_def
          by (auto simp add: McsStep_def spec_McsCombinations_def Let_def s1_def g_def nht he)
        with looping show ?thesis by simp
      next
        case False
        then have "McsStep env station channelWidth mode s = Inr s1"
          unfolding bv_def bh_def by (auto simp add: McsStep_def Let_def s1_def g_def nht he)
        then show ?thesis by simp
      qed
    qed
  qed
qed

lemma foldE_McsStep_returns:
  assumes B: "BuildSnrThresholds env = Inr B" and lim: "StreamLimit env station < 255"
  shows "Consistent (s_thresholds s) B \<Longrightarrow> m_channelWidth (s_txVector s) = channelWidth \<Longrightarrow>
     \<forall>c\<in>set (concat (map (spec_McsCombinations env station channelWidth) modes)).
        Threshold B c \<noteq> None \<Longrightarrow>
     \<exists>s'. foldE (McsStep env station channelWidth) modes s = Inr s'"
proof (induction modes arbitrary: s)
  case Nil
  then show ?case by simp
next
  case (Cons mode modes)
  from Cons.prems(3) have t: "\<forall>c\<in>set (spec_McsCombinations env station channelWidth mode). Threshold B c \<noteq> None"
    and rest: "\<forall>c\<in>set (concat (map (spec_McsCombinations env station channelWidth) modes)).
        Threshold B c \<noteq> None" by auto
  from McsStep_returns [OF B Cons.prems(1,2) lim t] obtain s2 where
    step: "McsStep env station channelWidth mode s = Inr s2" by blast
  from McsStep_Pick [OF B Cons.prems(1,2) step]
  have a: "Consistent (s_thresholds s2) B" "m_channelWidth (s_txVector s2) = channelWidth" by auto
  from Cons.IH [OF a rest] step show ?case by simp
qed

lemma NonHtStep_returns:
  assumes B: "BuildSnrThresholds env = Inr B" and C: "Consistent (s_thresholds s) B"
    and inv: "m_guardInterval (s_txVector s) = 800" "s_selectedNss s = 1"
    and m: "IsNonHtMode mode"
    and t: "Threshold B \<lparr>m_mode = mode, m_guardInterval = 800, m_nss = 1,
                          m_channelWidth = NonHtWidth mode\<rparr> \<noteq> None"
  shows "\<exists>s'. NonHtStep env station mode s = Inr s'"
proof -
  define c where "c = \<lparr>m_mode = mode, m_guardInterval = 800, m_nss = 1, m_channelWidth = NonHtWidth mode\<rparr>"
  have v: "(s_txVector s)\<lparr>m_mode := mode, m_nss := 1, m_channelWidth := NonHtWidth mode\<rparr> = c"
    using inv by (cases "s_txVector s") (simp add: c_def)
  note step = NonHtStep_unfold [OF GetChannelWidthForNonHtMode_returns [OF m], of env station s,
      unfolded inv, unfolded v]
  from t obtain th where "Threshold B c = Some th" by (auto simp: c_def)
  from GetSnrThreshold_returns [OF B C this] obtain T' where
    "GetSnrThreshold env (s_thresholds s) c = Inr (th, T')" by blast
  with step show ?thesis by simp
qed

lemma foldE_NonHtStep_returns:
  assumes B: "BuildSnrThresholds env = Inr B"
  shows "Consistent (s_thresholds s) B \<Longrightarrow> m_guardInterval (s_txVector s) = 800 \<Longrightarrow> s_selectedNss s = 1 \<Longrightarrow>
     \<forall>mode\<in>set modes. IsNonHtMode mode \<Longrightarrow>
     \<forall>c\<in>set (map (\<lambda>mode. \<lparr>m_mode = mode, m_guardInterval = 800, m_nss = 1,
                              m_channelWidth = NonHtWidth mode\<rparr>) modes). Threshold B c \<noteq> None \<Longrightarrow>
     \<exists>s'. foldE (NonHtStep env station) modes s = Inr s'"
proof (induction modes arbitrary: s)
  case Nil
  then show ?case by simp
next
  case (Cons mode modes)
  from Cons.prems(4,5) have m: "IsNonHtMode mode"
    and t: "Threshold B \<lparr>m_mode = mode, m_guardInterval = 800, m_nss = 1,
                          m_channelWidth = NonHtWidth mode\<rparr> \<noteq> None"
    and rest: "\<forall>mode\<in>set modes. IsNonHtMode mode"
      "\<forall>c\<in>set (map (\<lambda>mode. \<lparr>m_mode = mode, m_guardInterval = 800, m_nss = 1,
                              m_channelWidth = NonHtWidth mode\<rparr>) modes). Threshold B c \<noteq> None"
    by auto
  from NonHtStep_returns [OF B Cons.prems(1,2,3) m t] obtain s2 where
    step: "NonHtStep env station mode s = Inr s2" by blast
  from NonHtStep_Pick [OF B Cons.prems(1,2,3) step]
  have a: "Consistent (s_thresholds s2) B" "m_guardInterval (s_txVector s2) = 800" "s_selectedNss s2 = 1"
    by auto
  from Cons.IH [OF a rest] step show ?case by simp
qed

lemma Search_returns:
  assumes B: "BuildSnrThresholds env = Inr B" and C: "Consistent T B"
    and d: "spec_SearchDefined env B station channelWidth"
  shows "\<exists>s'. Search env station channelWidth
        \<lparr>s_txVector = WifiTxVector_default\<lparr>m_channelWidth := channelWidth\<rparr>, s_bestRate = 0,
         s_maxMode = dm, s_selectedNss = 1, s_thresholds = T\<rparr> = Inr s'"
proof (cases "GetHtSupported env \<and> st_HtSupported (m_state station)")
  case True
  with d have lim: "StreamLimit env station < 255"
    and t: "\<forall>c\<in>set (concat (map (spec_McsCombinations env station channelWidth)
               (st_McsSupported (m_state station)))). Threshold B c \<noteq> None"
    by (simp_all add: spec_SearchDefined_def spec_Combinations_def)
  have "\<exists>s'. foldE (McsStep env station channelWidth) (st_McsSupported (m_state station))
      \<lparr>s_txVector = WifiTxVector_default\<lparr>m_channelWidth := channelWidth\<rparr>, s_bestRate = 0,
         s_maxMode = dm, s_selectedNss = 1, s_thresholds = T\<rparr> = Inr s'"
    by (rule foldE_McsStep_returns [OF B lim]) (simp_all add: C t)
  with True show ?thesis by (simp add: Search_def)
next
  case False
  then have nc: "(GetHtSupported env \<and> st_HtSupported (m_state station)) = False" by simp
  from d have m: "\<forall>mode\<in>set (st_Supported (m_state station)). IsNonHtMode mode"
    and t: "\<forall>c\<in>set (map (\<lambda>mode. \<lparr>m_mode = mode, m_guardInterval = 800, m_nss = 1,
                              m_channelWidth = NonHtWidth mode\<rparr>) (st_Supported (m_state station))).
               Threshold B c \<noteq> None"
    by (simp_all add: spec_SearchDefined_def spec_Combinations_def nc)
  have "\<exists>s'. foldE (NonHtStep env station) (st_Supported (m_state station))
      \<lparr>s_txVector = WifiTxVector_default\<lparr>m_channelWidth := channelWidth\<rparr>, s_bestRate = 0,
         s_maxMode = dm, s_selectedNss = 1, s_thresholds = T\<rparr> = Inr s'"
    by (rule foldE_NonHtStep_returns [OF B _ _ _ m t]) (simp_all add: C WifiTxVector_default_def)
  then show ?thesis by (simp add: Search_def nc)
qed

lemma warmup_search_returns:
  assumes warm: "now < 10"
    and miss: "\<not> CacheHit station (min (st_ChannelWidth (m_state station)) allowedWidth)"
    and B: "BuildSnrThresholds env = Inr B" and C: "Consistent (m_thresholds vars) B"
    and d: "spec_SearchDefined env B station (min (st_ChannelWidth (m_state station)) allowedWidth)"
  shows "\<exists>r. DoGetDataTxVector env station vars now allowedWidth = Inr r"
proof -
  from Search_returns [OF B C d] obtain s' where
    "Search env station (min (st_ChannelWidth (m_state station)) allowedWidth)
        \<lparr>s_txVector = WifiTxVector_default\<lparr>m_channelWidth := min (st_ChannelWidth (m_state station)) allowedWidth\<rparr>,
         s_bestRate = 0, s_maxMode = st_DefaultModeForSta (m_state station), s_selectedNss = 1,
         s_thresholds = m_thresholds vars\<rparr> = Inr s'" by blast
  with warm miss show ?thesis
    by (simp add: DoGetDataTxVector_def SelectMode_def Let_def)
qed




lemma ex_SearchDefined: "spec_SearchDefined ex_env ex_table (ex_station snr) 20"
  by (simp add: spec_SearchDefined_def ex_Combinations StreamLimit_def Threshold_def
      ex_table_def SameKey_def ex_simps)


subsubsection \<open>What the search reads of the station\<close>

lemma spec_McsCombinations_state:
  assumes e: "m_state station' = m_state station"
  shows "spec_McsCombinations env station' channelWidth mode =
     spec_McsCombinations env station channelWidth mode"
proof -
  have g: "ShortGuardInterval env station' = ShortGuardInterval env station"
    "HeGuardInterval env station' = HeGuardInterval env station"
    "StreamLimit env station' = StreamLimit env station"
    by (simp_all only: ShortGuardInterval_def HeGuardInterval_def StreamLimit_def e)
  show ?thesis by (simp only: spec_McsCombinations_def g e)
qed

lemma spec_Combinations_state:
  assumes e: "m_state station' = m_state station"
  shows "spec_Combinations env station' channelWidth = spec_Combinations env station channelWidth"
proof -
  have "spec_McsCombinations env station' channelWidth = spec_McsCombinations env station channelWidth"
    using spec_McsCombinations_state [OF e] by (simp add: fun_eq_iff)
  then show ?thesis by (simp only: spec_Combinations_def e)
qed

lemma spec_Qualifies_observed:
  assumes e: "m_lastSnrObserved station' = m_lastSnrObserved station"
    "m_lastChannelWidthObserved station' = m_lastChannelWidthObserved station"
    "m_lastNssObserved station' = m_lastNssObserved station"
  shows "spec_Qualifies B station' = spec_Qualifies B station"
proof -
  have h: "GetLastObservedSnr station' w n = GetLastObservedSnr station w n" for w n
    by (simp only: GetLastObservedSnr_def e)
  show ?thesis
  proof (rule ext)
    fix c
    show "spec_Qualifies B station' c = spec_Qualifies B station c"
      by (simp only: spec_Qualifies_def h)
  qed
qed

lemma ex_Sentinel:
  "DoGetDataTxVector ex_env (ex_station (- 100)) (ex_vars ex_table []) 1 20 =
     Inr (\<lparr>m_mode = OfdmRate6Mbps, m_guardInterval = 800, m_nss = 1, m_channelWidth = 20\<rparr>,
          (ex_station (- 100))\<lparr>m_lastSnrCached := - 100, m_lastMode := OfdmRate6Mbps,
                                m_lastNss := 1, m_lastChannelWidth := 20\<rparr>,
          \<lparr>m_thresholds = ex_table, m_currentRate = 6, choosenMCS = []\<rparr>)"
  "DoGetDataTxVector ex_env
     ((ex_station (- 100))\<lparr>m_lastSnrCached := - 100, m_lastMode := OfdmRate6Mbps,
                            m_lastNss := 1, m_lastChannelWidth := 20\<rparr>)
     \<lparr>m_thresholds = ex_table, m_currentRate = 6, choosenMCS = []\<rparr> 2 20 =
     Inr (\<lparr>m_mode = OfdmRate6Mbps, m_guardInterval = 800, m_nss = 1, m_channelWidth = 20\<rparr>,
          (ex_station (- 100))\<lparr>m_lastSnrCached := - 100, m_lastMode := OfdmRate6Mbps,
                                m_lastNss := 1, m_lastChannelWidth := 20\<rparr>,
          \<lparr>m_thresholds = ex_table, m_currentRate = 6, choosenMCS = []\<rparr>)"
  by (simp_all add: DoGetDataTxVector_def SelectMode_def CacheHit_def Search_def McsStep_def
      NssLoop_def NssStep_def TestCandidate_def GetSnrThreshold_def ex_Build
      GetLastObservedSnr_def HeGuardInterval_def ShortGuardInterval_def
      CACHE_INITIAL_VALUE_def WifiTxVector_default_def ex_table_def SameKey_def ex_simps)

subsection \<open>The warm-up search\<close>

text \<open>
  Claim C1. During warm-up (simulated time below ten seconds), a request that is not a
  cache hit searches the supported combinations in the order of \<open>spec_Combinations\<close>
  (the non-HT modes when HT is not supported by both sides; otherwise the MCS list in
  ascending index, with NSS ascending from 1 for VHT and HE modes), admits as candidates
  only the combinations whose threshold is strictly below the estimated SNR for their
  width and NSS, and returns the first candidate with the highest data rate; with no
  candidate of a positive rate it returns the default mode of the station with one
  stream. It records the observation, the mode and the NSS in the station. The thresholds
  are those of the table that \<^verbatim>\<open>BuildSnrThresholds\<close> builds; the table the manager holds
  is consistent with it. The request does return when every combination has a threshold in
  that table (\<open>spec_SearchDefined\<close>).
\<close>

theorem warmup_search_returns_first_best:
  assumes warm: "now < 10"
    and miss: "\<not> CacheHit station (min (st_ChannelWidth (m_state station)) allowedWidth)"
    and B: "BuildSnrThresholds env = Inr B" and C: "Consistent (m_thresholds vars) B"
  shows "(spec_SearchDefined env B station (min (st_ChannelWidth (m_state station)) allowedWidth)
            \<longrightarrow> (\<exists>r. DoGetDataTxVector env station vars now allowedWidth = Inr r)) \<and>
         (\<forall>v station' vars'.
            DoGetDataTxVector env station vars now allowedWidth = Inr (v, station', vars') \<longrightarrow>
            (\<forall>c. FirstBest (spec_DataRate env)
                    (spec_Candidates env B station
                       (min (st_ChannelWidth (m_state station)) allowedWidth)) = Some c
                  \<longrightarrow> 0 < spec_DataRate env c \<longrightarrow> m_mode v = m_mode c \<and> m_nss v = m_nss c) \<and>
            ((\<forall>c\<in>set (spec_Candidates env B station
                          (min (st_ChannelWidth (m_state station)) allowedWidth)).
                 spec_DataRate env c = 0)
               \<longrightarrow> m_mode v = st_DefaultModeForSta (m_state station) \<and> m_nss v = 1) \<and>
            station' = station\<lparr>m_lastSnrCached := m_lastSnrObserved station,
                               m_lastMode := m_mode v, m_lastNss := m_nss v,
                               m_lastChannelWidth :=
                                 min (st_ChannelWidth (m_state station)) allowedWidth\<rparr>)"
proof -
  define cw where "cw = min (st_ChannelWidth (m_state station)) allowedWidth"
  have total: "spec_SearchDefined env B station cw
            \<longrightarrow> (\<exists>r. DoGetDataTxVector env station vars now allowedWidth = Inr r)"
    using warmup_search_returns [OF warm miss B C] unfolding cw_def by blast
  have partial:
    "(\<forall>c. FirstBest (spec_DataRate env) (spec_Candidates env B station cw) = Some c
           \<longrightarrow> 0 < spec_DataRate env c \<longrightarrow> m_mode v = m_mode c \<and> m_nss v = m_nss c) \<and>
     ((\<forall>c\<in>set (spec_Candidates env B station cw). spec_DataRate env c = 0)
           \<longrightarrow> m_mode v = st_DefaultModeForSta (m_state station) \<and> m_nss v = 1) \<and>
     station' = station\<lparr>m_lastSnrCached := m_lastSnrObserved station,
                        m_lastMode := m_mode v, m_lastNss := m_nss v,
                        m_lastChannelWidth := cw\<rparr>"
    if ok: "DoGetDataTxVector env station vars now allowedWidth = Inr (v, station', vars')"
    for v station' vars'
  proof -
    from warmup_search [OF warm miss B C ok] obtain r where
      f: "fold (PickData env B station) (spec_Combinations env station cw)
              (0, st_DefaultModeForSta (m_state station), 1) = (r, m_mode v, m_nss v)"
      and st: "station' = station\<lparr>m_lastSnrCached := m_lastSnrObserved station,
                              m_lastMode := m_mode v, m_lastNss := m_nss v,
                              m_lastChannelWidth := cw\<rparr>"
      unfolding cw_def by blast
    have a: "m_mode v = m_mode c \<and> m_nss v = m_nss c"
      if "FirstBest (spec_DataRate env) (spec_Candidates env B station cw) = Some c"
         "0 < spec_DataRate env c" for c
      using fold_Pick_FirstBest [OF f that(1) [unfolded spec_Candidates_def] that(2)]
      by (simp add: ModeNss_def)
    have b: "m_mode v = st_DefaultModeForSta (m_state station) \<and> m_nss v = 1"
      if "\<forall>c\<in>set (spec_Candidates env B station cw). spec_DataRate env c = 0"
    proof -
      from that have "\<forall>c\<in>set (spec_Combinations env station cw).
          spec_Qualifies B station c \<longrightarrow> spec_DataRate env c \<le> 0"
        by (simp add: spec_Candidates_def)
      from fold_Pick_none [OF this, of ModeNss "(st_DefaultModeForSta (m_state station), 1)"] f
      show ?thesis by simp
    qed
    from a b st show ?thesis by blast
  qed
  from total partial show ?thesis unfolding cw_def by blast
qed

theorem warmup_search_returns_first_best_witness:
  "(1::real) < 10 \<and> \<not> CacheHit (ex_station 30) 20 \<and> \<not> CacheHit (ex_station 1) 20 \<and>
   BuildSnrThresholds ex_env = Inr ex_table \<and> Consistent [] ex_table \<and>
   Consistent ex_table ex_table \<and>
   spec_SearchDefined ex_env ex_table (ex_station 30) 20 \<and>
   spec_Candidates ex_env ex_table (ex_station 30) 20 =
     [\<lparr>m_mode = HeMcs0, m_guardInterval = 800, m_nss = 1, m_channelWidth = 20\<rparr>,
      \<lparr>m_mode = HeMcs0, m_guardInterval = 800, m_nss = 2, m_channelWidth = 20\<rparr>,
      \<lparr>m_mode = HeMcs7, m_guardInterval = 800, m_nss = 1, m_channelWidth = 20\<rparr>] \<and>
   FirstBest (spec_DataRate ex_env) (spec_Candidates ex_env ex_table (ex_station 30) 20) =
     Some \<lparr>m_mode = HeMcs7, m_guardInterval = 800, m_nss = 1, m_channelWidth = 20\<rparr> \<and>
   0 < spec_DataRate ex_env
         \<lparr>m_mode = HeMcs7, m_guardInterval = 800, m_nss = 1, m_channelWidth = 20\<rparr> \<and>
   DoGetDataTxVector ex_env (ex_station 30) (ex_vars [] []) 1 20 =
     Inr (\<lparr>m_mode = HeMcs7, m_guardInterval = 800, m_nss = 1, m_channelWidth = 20\<rparr>,
          (ex_station 30)\<lparr>m_lastSnrCached := 30, m_lastMode := HeMcs7, m_lastNss := 1,
                            m_lastChannelWidth := 20\<rparr>,
          \<lparr>m_thresholds = ex_table, m_currentRate = 160, choosenMCS = []\<rparr>) \<and>
   spec_Candidates ex_env ex_table (ex_station 1) 20 = [] \<and>
   DoGetDataTxVector ex_env (ex_station 1) (ex_vars ex_table []) 1 20 =
     Inr (\<lparr>m_mode = OfdmRate6Mbps, m_guardInterval = 800, m_nss = 1, m_channelWidth = 20\<rparr>,
          (ex_station 1)\<lparr>m_lastSnrCached := 1, m_lastMode := OfdmRate6Mbps, m_lastNss := 1,
                           m_lastChannelWidth := 20\<rparr>,
          \<lparr>m_thresholds = ex_table, m_currentRate = 6, choosenMCS = []\<rparr>)"
proof -
  have warm: "(1::real) < 10" by simp
  have miss: "\<not> CacheHit (ex_station snr) (min (st_ChannelWidth (m_state (ex_station snr))) 20)"
    for snr by (simp add: CacheHit_def ex_simps)
  have C: "Consistent (m_thresholds (ex_vars [] [])) ex_table"
    "Consistent (m_thresholds (ex_vars ex_table [])) ex_table"
    by (simp_all add: ex_vars_def ex_Consistent)
  have r: "0 < spec_DataRate ex_env
         \<lparr>m_mode = HeMcs7, m_guardInterval = 800, m_nss = 1, m_channelWidth = 20\<rparr>"
    by (simp add: spec_DataRate_def ex_simps)
  from warmup_search_returns_first_best [OF warm miss ex_Build C(1)]
    warmup_search_returns_first_best [OF warm miss ex_Build C(2)]
  show ?thesis
    using ex_Build ex_Consistent ex_Candidates ex_FirstBest ex_NoCandidates ex_Search ex_Fallback
      ex_SearchDefined miss [of 30] miss [of 1] r
    by (simp add: ex_station_simps ex_state_simps)
qed

subsection \<open>The converged phase\<close>



subsection \<open>Feasibility of the warm-up selection\<close>

text \<open>
  Claim C3, as amended. When the warm-up search has at least one candidate with a positive
  data rate, the mode and NSS it returns are those of an enumerated combination whose
  threshold is strictly below the SNR estimated for the width and NSS of that combination.
  (With no such candidate the search returns the default mode of the station, whatever its
  threshold.)
\<close>
theorem warmup_candidate_below_estimate:
  assumes warm: "now < 10"
    and miss: "\<not> CacheHit station (min (st_ChannelWidth (m_state station)) allowedWidth)"
    and B: "BuildSnrThresholds env = Inr B" and C: "Consistent (m_thresholds vars) B"
    and ok: "DoGetDataTxVector env station vars now allowedWidth = Inr (v, station', vars')"
    and some: "\<exists>c\<in>set (spec_Candidates env B station (min (st_ChannelWidth (m_state station)) allowedWidth)).
                 0 < spec_DataRate env c"
  shows "\<exists>c\<in>set (spec_Combinations env station (min (st_ChannelWidth (m_state station)) allowedWidth)).
           m_mode c = m_mode v \<and> m_nss c = m_nss v \<and>
           (\<exists>threshold. Threshold B c = Some threshold \<and>
               threshold < GetLastObservedSnr station (m_channelWidth c) (m_nss c))"
proof -
  define cw where "cw = min (st_ChannelWidth (m_state station)) allowedWidth"
  from warmup_search [OF warm miss B C ok] obtain r where
    f: "fold (PickData env B station) (spec_Combinations env station cw)
            (0, st_DefaultModeForSta (m_state station), 1) = (r, m_mode v, m_nss v)"
    unfolding cw_def by blast
  from some obtain c0 where c0: "c0 \<in> set (spec_Combinations env station cw)"
    "spec_Qualifies B station c0" "0 < spec_DataRate env c0"
    unfolding cw_def spec_Candidates_def by auto
  from fold_Pick [OF f] c0 have "0 < r" by force
  with fold_Pick [OF f] obtain pre c post where
    h: "spec_Combinations env station cw = pre @ c # post" "spec_Qualifies B station c"
       "ModeNss c = (m_mode v, m_nss v)" by auto
  from h(2) obtain t where "Threshold B c = Some t"
     "t < GetLastObservedSnr station (m_channelWidth c) (m_nss c)"
    by (auto simp: spec_Qualifies_def split: option.splits)
  with h(1,3) show ?thesis unfolding cw_def [symmetric] by (auto simp: ModeNss_def)
qed

theorem warmup_candidate_below_estimate_witness:
  "(1::real) < 10 \<and> \<not> CacheHit (ex_station 30) 20 \<and>
   BuildSnrThresholds ex_env = Inr ex_table \<and> Consistent [] ex_table \<and>
   0 < spec_DataRate ex_env \<lparr>m_mode = HeMcs7, m_guardInterval = 800, m_nss = 1, m_channelWidth = 20\<rparr> \<and>
   (\<exists>c. c \<in> set (spec_Combinations ex_env (ex_station 30) 20) \<and>
        m_mode c = HeMcs7 \<and> m_nss c = 1 \<and>
        (\<exists>threshold. Threshold ex_table c = Some threshold \<and>
             threshold < GetLastObservedSnr (ex_station 30) (m_channelWidth c) (m_nss c)))"
proof -
  have warm: "(1::real) < 10" by simp
  have miss: "\<not> CacheHit (ex_station 30) (min (st_ChannelWidth (m_state (ex_station 30))) 20)"
    by (simp add: CacheHit_def ex_simps)
  have C: "Consistent (m_thresholds (ex_vars [] [])) ex_table"
    by (simp add: ex_vars_def ex_Consistent)
  have r: "0 < spec_DataRate ex_env \<lparr>m_mode = HeMcs7, m_guardInterval = 800, m_nss = 1, m_channelWidth = 20\<rparr>"
    by (simp add: spec_DataRate_def ex_simps)
  have some: "\<exists>c\<in>set (spec_Candidates ex_env ex_table (ex_station 30)
                 (min (st_ChannelWidth (m_state (ex_station 30))) 20)). 0 < spec_DataRate ex_env c"
    using r by (simp add: ex_station_simps ex_state_simps ex_Candidates)
  from warmup_candidate_below_estimate [OF warm miss ex_Build C ex_Search some]
  show ?thesis
    using ex_Build ex_Consistent miss r
    by (simp add: ex_station_simps ex_state_simps Bex_def)
qed

text \<open>
  The claim as first stated fails when no combination qualifies: with an observed SNR of 1
  every HE threshold is too high, the default mode is returned, and its threshold 2 is not
  below the estimate 1.
\<close>

theorem warmup_fallback_above_estimate:
  "DoGetDataTxVector ex_env (ex_station 1) (ex_vars ex_table []) 1 20 =
     Inr (\<lparr>m_mode = OfdmRate6Mbps, m_guardInterval = 800, m_nss = 1, m_channelWidth = 20\<rparr>,
          (ex_station 1)\<lparr>m_lastSnrCached := 1, m_lastMode := OfdmRate6Mbps, m_lastNss := 1,
                           m_lastChannelWidth := 20\<rparr>,
          \<lparr>m_thresholds = ex_table, m_currentRate = 6, choosenMCS = []\<rparr>) \<and>
   Threshold ex_table \<lparr>m_mode = OfdmRate6Mbps, m_guardInterval = 800, m_nss = 1, m_channelWidth = 20\<rparr>
     = Some 2 \<and>
   GetLastObservedSnr (ex_station 1) 20 1 = 1 \<and>
   \<not> spec_Qualifies ex_table (ex_station 1)
        \<lparr>m_mode = OfdmRate6Mbps, m_guardInterval = 800, m_nss = 1, m_channelWidth = 20\<rparr>"
  using ex_Fallback
  by (simp add: Threshold_def spec_Qualifies_def ex_table_def SameKey_def GetLastObservedSnr_def
      ex_station_simps ex_modes)

subsection \<open>Lookup of a threshold\<close>



subsection \<open>The cache\<close>

text \<open>
  Claim C5. After a warm-up request, a second warm-up request for the same station with the
  same allowed width returns the same mode and NSS. When the observed SNR is a valid one
  (not the sentinel -100), the second request is a cache hit: the cached SNR differs from
  the sentinel, the observed SNR equals the cached SNR, the requested width equals the
  cached width; this holds also when the observed width and NSS have changed in between.
  With the unchanged observation the result is the same for every observed SNR, by a
  cache hit or by the same search again, the table being consistent with the rebuilt one.
\<close>

theorem warmup_cache_idempotent:
  assumes warm: "now1 < 10" "now2 < 10"
    and first: "DoGetDataTxVector env station vars now1 allowedWidth = Inr (v1, station1, vars1)"
  shows "(m_lastSnrObserved station \<noteq> CACHE_INITIAL_VALUE \<longrightarrow>
           CacheHit (station1\<lparr>m_lastChannelWidthObserved := w, m_lastNssObserved := n\<rparr>)
             (min (st_ChannelWidth (m_state station)) allowedWidth) \<and>
           (\<exists>v2 station2 vars2.
              DoGetDataTxVector env (station1\<lparr>m_lastChannelWidthObserved := w, m_lastNssObserved := n\<rparr>)
                 vars1 now2 allowedWidth = Inr (v2, station2, vars2) \<and>
              m_mode v2 = m_mode v1 \<and> m_nss v2 = m_nss v1)) \<and>
         (BuildSnrThresholds env = Inr B \<longrightarrow> Consistent (m_thresholds vars) B \<longrightarrow>
           (\<forall>v2 station2 vars2.
              DoGetDataTxVector env station1 vars1 now2 allowedWidth = Inr (v2, station2, vars2) \<longrightarrow>
              m_mode v2 = m_mode v1 \<and> m_nss v2 = m_nss v1))"
proof -
  define cw where "cw = min (st_ChannelWidth (m_state station)) allowedWidth"
  from first warm(1) obtain m k st va where
    sel: "SelectMode env station vars now1 cw = Inr (m, k, st, va)"
    and v1: "m_mode v1 = m" "m_nss v1 = k" and st1: "station1 = st\<lparr>m_lastChannelWidth := cw\<rparr>"
    by (auto simp: DoGetDataTxVector_def Let_def cw_def split: sum.splits if_splits)
  have hit: "CacheHit (station1\<lparr>m_lastChannelWidthObserved := w, m_lastNssObserved := n\<rparr>) cw \<and>
       (\<exists>v2 station2 vars2.
              DoGetDataTxVector env (station1\<lparr>m_lastChannelWidthObserved := w, m_lastNssObserved := n\<rparr>)
                 vars1 now2 allowedWidth = Inr (v2, station2, vars2) \<and>
              m_mode v2 = m_mode v1 \<and> m_nss v2 = m_nss v1)"
    if valid: "m_lastSnrObserved station \<noteq> CACHE_INITIAL_VALUE" for w n
  proof -
    from sel warm(1) valid have st: "m_lastSnrCached st \<noteq> CACHE_INITIAL_VALUE"
       "m_lastSnrObserved st = m_lastSnrCached st" "m_lastMode st = m" "m_lastNss st = k"
       "m_state st = m_state station"
      by (auto simp: SelectMode_def Let_def CacheHit_def split: sum.splits if_splits)
    define st2 where "st2 = station1\<lparr>m_lastChannelWidthObserved := w, m_lastNssObserved := n\<rparr>"
    have h: "CacheHit st2 cw" using st st1 by (simp add: CacheHit_def st2_def)
    have cw2: "min (st_ChannelWidth (m_state st2)) allowedWidth = cw"
      using st(5) st1 by (simp add: st2_def cw_def)
    have "SelectMode env st2 vars1 now2 cw = Inr (m, k, st2, vars1)"
      using h warm(2) st st1 by (simp add: SelectMode_def Let_def st2_def)
    then have "\<exists>v2 station2 vars2. DoGetDataTxVector env st2 vars1 now2 allowedWidth = Inr (v2, station2, vars2) \<and>
              m_mode v2 = m \<and> m_nss v2 = k"
      by (simp add: DoGetDataTxVector_def cw2 Let_def)
    with h v1 show ?thesis unfolding st2_def by simp
  qed
  have same: "m_mode v2 = m_mode v1 \<and> m_nss v2 = m_nss v1"
    if B: "BuildSnrThresholds env = Inr B" and C: "Consistent (m_thresholds vars) B"
      and second: "DoGetDataTxVector env station1 vars1 now2 allowedWidth = Inr (v2, station2, vars2)"
    for v2 station2 vars2
  proof (cases "m_lastSnrObserved station = CACHE_INITIAL_VALUE")
    case False
    from hit [OF False, where w = "m_lastChannelWidthObserved station1"
        and n = "m_lastNssObserved station1"] second
    show ?thesis by auto
  next
    case True
    then have miss1: "\<not> CacheHit station (min (st_ChannelWidth (m_state station)) allowedWidth)"
      by (auto simp: CacheHit_def)
    from warmup_search [OF warm(1) miss1 B C first] obtain r1 where
      f1: "fold (PickData env B station) (spec_Combinations env station cw)
            (0, st_DefaultModeForSta (m_state station), 1) = (r1, m_mode v1, m_nss v1)"
      and s1: "station1 = station\<lparr>m_lastSnrCached := m_lastSnrObserved station,
                            m_lastMode := m_mode v1, m_lastNss := m_nss v1,
                            m_lastChannelWidth := cw\<rparr>"
      and C1: "Consistent (m_thresholds vars1) B"
      unfolding cw_def by blast
    from s1 have eqs: "m_state station1 = m_state station"
      "m_lastSnrObserved station1 = m_lastSnrObserved station"
      "m_lastChannelWidthObserved station1 = m_lastChannelWidthObserved station"
      "m_lastNssObserved station1 = m_lastNssObserved station"
      "m_lastSnrCached station1 = CACHE_INITIAL_VALUE"
      using True by simp_all
    then have miss2: "\<not> CacheHit station1 (min (st_ChannelWidth (m_state station1)) allowedWidth)"
      by (simp add: CacheHit_def)
    from warmup_search [OF warm(2) miss2 B C1 second] obtain r2 where
      "fold (PickData env B station1)
         (spec_Combinations env station1 (min (st_ChannelWidth (m_state station1)) allowedWidth))
            (0, st_DefaultModeForSta (m_state station1), 1) = (r2, m_mode v2, m_nss v2)"
      by blast
    then have "fold (PickData env B station) (spec_Combinations env station cw)
            (0, st_DefaultModeForSta (m_state station), 1) = (r2, m_mode v2, m_nss v2)"
      by (simp add: eqs(1) spec_Combinations_state [OF eqs(1)] spec_Qualifies_observed [OF eqs(2,3,4)]
          cw_def)
    with f1 show ?thesis by simp
  qed
  from hit same show ?thesis unfolding cw_def by blast
qed

theorem warmup_cache_idempotent_witness:
  "(1::real) < 10 \<and> (2::real) < 10 \<and> m_lastSnrObserved (ex_station 30) \<noteq> CACHE_INITIAL_VALUE \<and>
   DoGetDataTxVector ex_env (ex_station 30) (ex_vars [] []) 1 20 =
     Inr (\<lparr>m_mode = HeMcs7, m_guardInterval = 800, m_nss = 1, m_channelWidth = 20\<rparr>,
          (ex_station 30)\<lparr>m_lastSnrCached := 30, m_lastMode := HeMcs7, m_lastNss := 1,
                            m_lastChannelWidth := 20\<rparr>,
          \<lparr>m_thresholds = ex_table, m_currentRate = 160, choosenMCS = []\<rparr>) \<and>
   CacheHit ((ex_station 30)\<lparr>m_lastSnrCached := 30, m_lastMode := HeMcs7, m_lastNss := 1,
                              m_lastChannelWidth := 20, m_lastChannelWidthObserved := 40,
                              m_lastNssObserved := 2\<rparr>) 20 \<and>
   (\<exists>v2 station2 vars2.
      DoGetDataTxVector ex_env
        ((ex_station 30)\<lparr>m_lastSnrCached := 30, m_lastMode := HeMcs7, m_lastNss := 1,
                          m_lastChannelWidth := 20, m_lastChannelWidthObserved := 40,
                          m_lastNssObserved := 2\<rparr>)
        \<lparr>m_thresholds = ex_table, m_currentRate = 160, choosenMCS = []\<rparr> 2 20 =
        Inr (v2, station2, vars2) \<and> m_mode v2 = HeMcs7 \<and> m_nss v2 = 1) \<and>
   BuildSnrThresholds ex_env = Inr ex_table \<and> Consistent ex_table ex_table \<and>
   m_lastSnrObserved (ex_station (- 100)) = CACHE_INITIAL_VALUE \<and>
   DoGetDataTxVector ex_env (ex_station (- 100)) (ex_vars ex_table []) 1 20 =
     Inr (\<lparr>m_mode = OfdmRate6Mbps, m_guardInterval = 800, m_nss = 1, m_channelWidth = 20\<rparr>,
          (ex_station (- 100))\<lparr>m_lastSnrCached := - 100, m_lastMode := OfdmRate6Mbps,
                                m_lastNss := 1, m_lastChannelWidth := 20\<rparr>,
          \<lparr>m_thresholds = ex_table, m_currentRate = 6, choosenMCS = []\<rparr>) \<and>
   \<not> CacheHit ((ex_station (- 100))\<lparr>m_lastSnrCached := - 100, m_lastMode := OfdmRate6Mbps,
                                      m_lastNss := 1, m_lastChannelWidth := 20\<rparr>) 20 \<and>
   DoGetDataTxVector ex_env
     ((ex_station (- 100))\<lparr>m_lastSnrCached := - 100, m_lastMode := OfdmRate6Mbps,
                            m_lastNss := 1, m_lastChannelWidth := 20\<rparr>)
     \<lparr>m_thresholds = ex_table, m_currentRate = 6, choosenMCS = []\<rparr> 2 20 =
     Inr (\<lparr>m_mode = OfdmRate6Mbps, m_guardInterval = 800, m_nss = 1, m_channelWidth = 20\<rparr>,
          (ex_station (- 100))\<lparr>m_lastSnrCached := - 100, m_lastMode := OfdmRate6Mbps,
                                m_lastNss := 1, m_lastChannelWidth := 20\<rparr>,
          \<lparr>m_thresholds = ex_table, m_currentRate = 6, choosenMCS = []\<rparr>)"
proof -
  have warm: "(1::real) < 10" "(2::real) < 10" by simp_all
  have valid: "m_lastSnrObserved (ex_station 30) \<noteq> CACHE_INITIAL_VALUE"
    "m_lastSnrObserved (ex_station (- 100)) = CACHE_INITIAL_VALUE"
    by (simp_all add: ex_station_simps CACHE_INITIAL_VALUE_def)
  have miss: "\<not> CacheHit ((ex_station (- 100))\<lparr>m_lastSnrCached := - 100, m_lastMode := OfdmRate6Mbps,
                                      m_lastNss := 1, m_lastChannelWidth := 20\<rparr>) 20"
    by (simp add: CacheHit_def CACHE_INITIAL_VALUE_def)
  have C: "Consistent (m_thresholds (ex_vars ex_table [])) ex_table"
    by (simp add: ex_vars_def ex_Consistent)
  from warmup_cache_idempotent [OF warm ex_Search, where w = 40 and n = 2]
    warmup_cache_idempotent [OF warm ex_Sentinel(1), where B = ex_table]
    valid ex_Search ex_Sentinel ex_Build ex_Consistent(2) C miss
  show ?thesis by (simp add: ex_station_simps ex_state_simps)
qed

subsection \<open>The SNR estimate\<close>

text \<open>
  Claim C6. \<^verbatim>\<open>GetLastObservedSnr\<close> divides the last observed SNR by the ratio of the
  requested to the observed width when the two differ, and then by the ratio of the
  requested to the observed NSS when these differ: the observed SNR times
  (observed width / width) times (observed NSS / NSS) on the dimensions that differ, and
  the observed SNR itself when both agree. (Over the reals; the callers pass a positive
  width and NSS.)
\<close>
theorem GetLastObservedSnr_rescales:
  "GetLastObservedSnr station w n =
     (if w \<noteq> m_lastChannelWidthObserved station
      then (if n \<noteq> m_lastNssObserved station
            then m_lastSnrObserved station
                   / (real w / real (m_lastChannelWidthObserved station))
                   / (real n / real (m_lastNssObserved station))
            else m_lastSnrObserved station / (real w / real (m_lastChannelWidthObserved station)))
      else (if n \<noteq> m_lastNssObserved station
            then m_lastSnrObserved station / (real n / real (m_lastNssObserved station))
            else m_lastSnrObserved station)) \<and>
   GetLastObservedSnr station w n =
     m_lastSnrObserved station
       * (if w \<noteq> m_lastChannelWidthObserved station
          then real (m_lastChannelWidthObserved station) / real w else 1)
       * (if n \<noteq> m_lastNssObserved station
          then real (m_lastNssObserved station) / real n else 1)"
  by (simp add: GetLastObservedSnr_def Let_def)

theorem GetLastObservedSnr_rescales_witness:
  "GetLastObservedSnr (ex_station 30) 40 2 = 30 / (40 / 20) / (2 / 1) \<and>
   GetLastObservedSnr (ex_station 30) 40 2 = 30 * (20 / 40) * (1 / 2) \<and>
   GetLastObservedSnr (ex_station 30) 40 1 = 30 / (40 / 20) \<and>
   GetLastObservedSnr (ex_station 30) 20 2 = 30 / (2 / 1) \<and>
   GetLastObservedSnr (ex_station 30) 20 1 = 30"
  using GetLastObservedSnr_rescales [of "ex_station 30" 40 2]
    GetLastObservedSnr_rescales [of "ex_station 30" 40 1]
    GetLastObservedSnr_rescales [of "ex_station 30" 20 2]
    GetLastObservedSnr_rescales [of "ex_station 30" 20 1]
  by (simp add: ex_station_simps)

subsection \<open>The blocked link\<close>

text \<open>
  Claim C7, as amended. For every transmit power, every distance other than zero and all
  floor and room numbers: when both endpoints carry building information and one is indoor
  while the other is not, \<^verbatim>\<open>DoCalcRxPower\<close> returns exactly 0. (At distance zero it returns
  the transmit power before it looks at the buildings.)
\<close>
theorem blocked_link_zero_power:
  "distance \<noteq> 0 \<Longrightarrow> IsIndoor a \<noteq> IsIndoor b \<Longrightarrow>
   DoCalcRxPower m_frequencyHz txPowerDbm distance (Some a) (Some b) = 0"
  by (auto simp add: DoCalcRxPower_def Let_def)

theorem blocked_link_zero_power_witness:
  "(3::real) \<noteq> 0 \<and> IsIndoor ex_indoor \<noteq> IsIndoor ex_outdoor \<and>
   DoCalcRxPower 2437000000 16 3 (Some ex_indoor) (Some ex_outdoor) = 0 \<and>
   DoCalcRxPower 2437000000 16 3 (Some ex_outdoor) (Some ex_indoor) = 0"
proof -
  have d: "(3::real) \<noteq> 0" by simp
  have i: "IsIndoor ex_indoor \<noteq> IsIndoor ex_outdoor" "IsIndoor ex_outdoor \<noteq> IsIndoor ex_indoor"
    by (simp_all add: ex_indoor_def ex_outdoor_def)
  from blocked_link_zero_power [OF d i(1)] blocked_link_zero_power [OF d i(2)] d i(1)
  show ?thesis by simp
qed

text \<open>
  At distance zero the transmit power is returned, also between an indoor and an outdoor
  endpoint.
\<close>

theorem blocked_link_same_position:
  "IsIndoor ex_indoor \<noteq> IsIndoor ex_outdoor \<and>
   DoCalcRxPower 2437000000 16 0 (Some ex_indoor) (Some ex_outdoor) = 16 \<and>
   DoCalcRxPower 2437000000 16 0 (Some ex_indoor) (Some ex_outdoor) \<noteq> 0"
  by (simp add: DoCalcRxPower_def ex_indoor_def ex_outdoor_def)

subsection \<open>The control rate\<close>



subsection \<open>The history of selected MCS indices\<close>

text \<open>
  Claim C9, as amended. A report of a successful data frame with a data SNR other than 0
  appends the MCS index of the last mode of the station to \<^verbatim>\<open>choosenMCS\<close> exactly once when
  that mode is not the default mode of the manager, and appends nothing when it is; a
  report of an A-MPDU with a data SNR other than 0 appends it once for each successful
  MPDU; a report with a data SNR of 0 appends nothing.
\<close>
theorem reports_append_history:
  "choosenMCS (snd (DoReportDataOk env station vars dataSnr dataChannelWidth dataNss)) =
     (if dataSnr \<noteq> 0 \<and> m_lastMode station \<noteq> GetDefaultMode env
      then choosenMCS vars @ [int (GetMcsValue (m_lastMode station))]
      else choosenMCS vars) \<and>
   choosenMCS (snd (DoReportAmpduTxStatus station vars nSuccessfulMpdus nFailedMpdus rxSnr dataSnr
                      dataChannelWidth dataNss)) =
     (if dataSnr \<noteq> 0
      then choosenMCS vars @ replicate nSuccessfulMpdus (int (GetMcsValue (m_lastMode station)))
      else choosenMCS vars)"
  by (simp add: DoReportDataOk_def DoReportAmpduTxStatus_def fold_append_replicate)

theorem reports_append_history_witness:
  "choosenMCS (snd (DoReportDataOk ex_env ((ex_station 30)\<lparr>m_lastMode := HeMcs7\<rparr>)
                      (ex_vars [] [0]) 25 20 1)) = [0, 7] \<and>
   choosenMCS (snd (DoReportAmpduTxStatus ((ex_station 30)\<lparr>m_lastMode := HeMcs7\<rparr>)
                      (ex_vars [] [0]) 3 2 25 25 20 1)) = [0, 7, 7, 7]"
  using reports_append_history [of ex_env "(ex_station 30)\<lparr>m_lastMode := HeMcs7\<rparr>"
          "ex_vars [] [0]" 25 20 1 3 2 25]
  by (simp add: ex_env_simps ex_vars_def ex_modes numeral_3_eq_3)

text \<open>
  Reports that append nothing: a successful data frame while the last mode is the default
  mode, a successful data frame with a data SNR of 0, and an A-MPDU with three successful
  MPDUs and a data SNR of 0.
\<close>

theorem reports_not_recorded:
  "choosenMCS (snd (DoReportDataOk ex_env (ex_station 30) (ex_vars [] []) 25 20 1)) = [] \<and>
   choosenMCS (snd (DoReportDataOk ex_env ((ex_station 30)\<lparr>m_lastMode := HeMcs7\<rparr>)
                      (ex_vars [] []) 0 20 1)) = [] \<and>
   choosenMCS (snd (DoReportAmpduTxStatus ((ex_station 30)\<lparr>m_lastMode := HeMcs7\<rparr>)
                      (ex_vars [] []) 3 0 25 0 20 1)) = []"
  by (simp add: DoReportDataOk_def DoReportAmpduTxStatus_def ex_env_simps ex_station_simps
      ex_vars_def)

subsection \<open>The empty history\<close>

text \<open>
  Claim C10. From ten seconds on, a request fails on the undefined mean exactly when
  \<^verbatim>\<open>choosenMCS\<close> is empty: nothing on the path guards the division by its size, and no mode
  is returned.
\<close>
theorem converged_empty_history_undefined:
  "10 \<le> now \<Longrightarrow>
   (DoGetDataTxVector env station vars now allowedWidth = Inl McsMeanUndefined)
     = (choosenMCS vars = [])"
  by (auto simp add: DoGetDataTxVector_def SelectMode_def ConvergedMode_def ConvergedMcs_eq Let_def
      split: sum.splits option.splits)

theorem converged_empty_history_undefined_witness:
  "(10::real) \<le> 10 \<and>
   DoGetDataTxVector ex_env (ex_station 30) (ex_vars ex_table []) 10 20 = Inl McsMeanUndefined \<and>
   DoGetDataTxVector ex_env (ex_station 30) (ex_vars ex_table [7]) 10 20 \<noteq> Inl McsMeanUndefined"
  using converged_empty_history_undefined [of 10 ex_env "ex_station 30" "ex_vars ex_table []" 20]
    converged_empty_history_undefined [of 10 ex_env "ex_station 30" "ex_vars ex_table [7]" 20]
  by (simp add: ex_vars_def)

end
